theory Spec2Isabelle
  imports Complex_Main
begin

section \<open>Tensors, errors and arithmetic\<close>

text \<open>
  The two notebooks (\<^verbatim>\<open>Encoder_Decoder.ipynb\<close>, \<^verbatim>\<open>Decoder.ipynb\<close>) build a Transformer
  on PyTorch tensors. The embedding follows them with these conventions:
  \<^item> a tensor is a nested list (batch, position, feature); learned parameters are real
    numbers, activations are real numbers or \<open>NaN\<close> (the code itself produces NaN from
    finite inputs: the softmax of a row filled with minus infinity); rounding is not
    modelled;
  \<^item> minus infinity only ever enters through \<^verbatim>\<open>masked_fill\<close> and is consumed by the
    softmax, so it is a constructor of the score type alone;
  \<^item> every exception is a value of \<open>error\<close>; a call returns \<open>Inl e\<close> where Python raises;
  \<^item> PyTorch expands a dimension of size 1 of a mask or of the positional table to the
    size of the tensor it is combined with; that is modelled (\<open>expand\<close>). Every other
    disagreement of shapes is \<open>ShapeError\<close>; the expansion of an input of size 1 to the
    size of a mask or table, and views that regroup the batch and position axes, are not
    modelled and are \<open>ShapeError\<close> as well;
  \<^item> \<^verbatim>\<open>nn.Dropout\<close> is modelled in evaluation mode, where it is the identity;
  \<^item> \<^verbatim>\<open>nn.LayerNorm\<close> and the \<^verbatim>\<open>nn.Sequential\<close> feed-forward network are library
    layers; a block holds them as functions on tensors.
\<close>

datatype error = ShapeError | IndexError | ZeroDivisionError | AttributeError

definition bind_result :: "error + 'a \<Rightarrow> ('a \<Rightarrow> error + 'b) \<Rightarrow> error + 'b" where
  "bind_result r f = (case r of Inl e \<Rightarrow> Inl e | Inr x \<Rightarrow> f x)"

text \<open>Applying a fallible operation to every element; the first exception propagates.\<close>

fun traverse :: "('a \<Rightarrow> error + 'b) \<Rightarrow> 'a list \<Rightarrow> error + 'b list" where
  "traverse f [] = Inr []"
| "traverse f (x # xs) =
     bind_result (f x) (\<lambda>y. bind_result (traverse f xs) (\<lambda>ys. Inr (y # ys)))"

datatype fl = Fin real | NaN

fun fl_add :: "fl \<Rightarrow> fl \<Rightarrow> fl" where
  "fl_add (Fin a) (Fin b) = Fin (a + b)"
| "fl_add _ _ = NaN"

fun fl_mul :: "fl \<Rightarrow> fl \<Rightarrow> fl" where
  "fl_mul (Fin a) (Fin b) = Fin (a * b)"
| "fl_mul _ _ = NaN"

text \<open>
  Division: the two divisions of the program (by \<^verbatim>\<open>math.sqrt(d_k)\<close> and by the softmax
  denominator) have a zero divisor only together with a zero dividend, which is NaN.
\<close>

fun fl_div :: "fl \<Rightarrow> fl \<Rightarrow> fl" where
  "fl_div (Fin a) (Fin b) = (if b = 0 then NaN else Fin (a / b))"
| "fl_div _ _ = NaN"

definition fl_sum :: "fl list \<Rightarrow> fl" where
  "fl_sum xs = foldr fl_add xs (Fin 0)"

definition dot :: "fl list \<Rightarrow> fl list \<Rightarrow> fl" where
  "dot x y = fl_sum (map2 fl_mul x y)"

type_synonym vec = "fl list"
type_synonym mat = "fl list list"
type_synonym tensor3 = "fl list list list"

text \<open>Broadcasting one dimension: equal sizes, or size 1 repeated.\<close>

definition expand :: "nat \<Rightarrow> 'a list \<Rightarrow> error + 'a list" where
  "expand n xs =
     (if length xs = n then Inr xs
      else (case xs of [x] \<Rightarrow> Inr (replicate n x) | _ \<Rightarrow> Inl ShapeError))"

text \<open>Elementwise sum of two tensors of the same shape (the residual connection).\<close>

definition add_vec :: "vec \<Rightarrow> vec \<Rightarrow> error + vec" where
  "add_vec x y = (if length x = length y then Inr (map2 fl_add x y) else Inl ShapeError)"

definition add_mat :: "mat \<Rightarrow> mat \<Rightarrow> error + mat" where
  "add_mat x y =
     (if length x = length y then traverse (\<lambda>(a, b). add_vec a b) (zip x y)
      else Inl ShapeError)"

definition add_tensor :: "tensor3 \<Rightarrow> tensor3 \<Rightarrow> error + tensor3" where
  "add_tensor x y =
     (if length x = length y then traverse (\<lambda>(a, b). add_mat a b) (zip x y)
      else Inl ShapeError)"

definition Dropout_forward :: "'a \<Rightarrow> 'a" where
  "Dropout_forward x = x"

subsection \<open>nn.Linear\<close>

record Linear =
  in_features :: nat
  out_features :: nat
  weight :: "real list list"
  bias :: "real list"

definition Linear_init :: "nat \<Rightarrow> nat \<Rightarrow> real list list \<times> real list \<Rightarrow> Linear" where
  "Linear_init n_in n_out p =
     \<lparr>in_features = n_in, out_features = n_out, weight = fst p, bias = snd p\<rparr>"

definition Linear_forward :: "Linear \<Rightarrow> vec \<Rightarrow> error + vec" where
  "Linear_forward L x =
     (if length x = in_features L
      then Inr (map2 (\<lambda>w b. fl_add (dot (map Fin w) x) (Fin b)) (weight L) (bias L))
      else Inl ShapeError)"

definition Linear_forward3 :: "Linear \<Rightarrow> tensor3 \<Rightarrow> error + tensor3" where
  "Linear_forward3 L x = traverse (traverse (Linear_forward L)) x"

section \<open>MultiHeadAttention\<close>

datatype score = Score fl | Masked

record MultiHeadAttention =
  mha_d_k :: nat
  mha_n_heads :: nat
  mha_key :: Linear
  mha_query :: Linear
  mha_value :: Linear
  mha_fc :: Linear
  mha_causal :: bool
  mha_causal_mask :: "real list list option"

text \<open>\<^verbatim>\<open>torch.tril(torch.ones(max_len, max_len))\<close>\<close>

definition tril_ones :: "nat \<Rightarrow> real list list" where
  "tril_ones n = map (\<lambda>i. map (\<lambda>j. if j \<le> i then 1 else 0) [0..<n]) [0..<n]"

text \<open>
  \<^verbatim>\<open>__init__\<close>: the four linear layers are created with random parameters that training
  overwrites; their parameters are arguments here. The buffer \<^verbatim>\<open>causal_mask\<close> is
  registered only when \<^verbatim>\<open>causal\<close> is set.
\<close>

definition MultiHeadAttention_init ::
  "nat \<Rightarrow> nat \<Rightarrow> nat \<Rightarrow> nat \<Rightarrow> bool \<Rightarrow>
   (real list list \<times> real list) \<Rightarrow> (real list list \<times> real list) \<Rightarrow>
   (real list list \<times> real list) \<Rightarrow> (real list list \<times> real list) \<Rightarrow> MultiHeadAttention" where
  "MultiHeadAttention_init dk d_model nh max_len c pk pq pv pfc =
     \<lparr>mha_d_k = dk, mha_n_heads = nh,
      mha_key = Linear_init d_model (dk * nh) pk,
      mha_query = Linear_init d_model (dk * nh) pq,
      mha_value = Linear_init d_model (dk * nh) pv,
      mha_fc = Linear_init (dk * nh) d_model pfc,
      mha_causal = c,
      mha_causal_mask = (if c then Some (tril_ones max_len) else None)\<rparr>"

text \<open>
  \<^verbatim>\<open>x.view(N, T, n_heads, d_k).transpose(1, 2)\<close> for one batch element: head \<open>i\<close> reads
  the features \<open>i * d_k ..< (i + 1) * d_k\<close> of every position. The view raises when the
  projected width is not \<open>n_heads * d_k\<close>.
\<close>

definition split_heads :: "nat \<Rightarrow> nat \<Rightarrow> mat \<Rightarrow> error + mat list" where
  "split_heads h dk x =
     (if list_all (\<lambda>row. length row = h * dk) x
      then Inr (map (\<lambda>i. map (\<lambda>row. take dk (drop (i * dk) row)) x) [0..<h])
      else Inl ShapeError)"

text \<open>\<^verbatim>\<open>q @ k.transpose(-2, -1) / math.sqrt(self.d_k)\<close> for one head.\<close>

definition attn_scores :: "nat \<Rightarrow> mat \<Rightarrow> mat \<Rightarrow> score list list" where
  "attn_scores dk qh kh =
     map (\<lambda>qi. map (\<lambda>kj. Score (fl_div (dot qi kj) (Fin (sqrt (real dk))))) kh) qh"

text \<open>
  \<^verbatim>\<open>scores.masked_fill(mask, float('-inf'))\<close> on a (T_output, T_input) score matrix; the
  mask is expanded to the shape of the scores first.
\<close>

definition masked_fill :: "score list list \<Rightarrow> bool list list \<Rightarrow> error + score list list" where
  "masked_fill s m =
     bind_result (expand (length s) m) (\<lambda>rows.
       traverse (\<lambda>(srow, mrow).
         bind_result (expand (length srow) mrow) (\<lambda>mr.
           Inr (map2 (\<lambda>x b. if b then Masked else x) srow mr)))
         (zip s rows))"

text \<open>\<^verbatim>\<open>pad_mask[:, None, None, :] == 0\<close>, for the mask row of one batch element.\<close>

definition pad_fill :: "int list option \<Rightarrow> score list list \<Rightarrow> error + score list list" where
  "pad_fill pad s =
     (case pad of None \<Rightarrow> Inr s | Some r \<Rightarrow> masked_fill s [map (\<lambda>x. x = 0) r])"

text \<open>\<^verbatim>\<open>self.causal_mask[:, :, :T_output, :T_input]\<close>: a slice stops at the end of the buffer.\<close>

definition slice_mask :: "real list list \<Rightarrow> nat \<Rightarrow> nat \<Rightarrow> real list list" where
  "slice_mask cm T_output T_input = map (take T_input) (take T_output cm)"

definition causal_fill ::
  "MultiHeadAttention \<Rightarrow> nat \<Rightarrow> nat \<Rightarrow> score list list \<Rightarrow> error + score list list" where
  "causal_fill m T_output T_input s =
     (if mha_causal m
      then (case mha_causal_mask m of
              None \<Rightarrow> Inl AttributeError
            | Some cm \<Rightarrow>
                masked_fill s (map (map (\<lambda>x. x = 0)) (slice_mask cm T_output T_input)))
      else Inr s)"

text \<open>
  \<^verbatim>\<open>F.softmax(attn_scores, dim=-1)\<close> on one row: \<open>exp\<close> of minus infinity is 0, and a row
  whose exponentials sum to 0 (every entry minus infinity) divides 0 by 0.
\<close>

fun exp_score :: "score \<Rightarrow> fl" where
  "exp_score Masked = Fin 0"
| "exp_score (Score (Fin x)) = Fin (exp x)"
| "exp_score (Score NaN) = NaN"

definition softmax_row :: "score list \<Rightarrow> fl list" where
  "softmax_row xs = (let es = map exp_score xs; s = fl_sum es in map (\<lambda>e. fl_div e s) es)"

definition head_weights ::
  "MultiHeadAttention \<Rightarrow> nat \<Rightarrow> nat \<Rightarrow> int list option \<Rightarrow> mat \<Rightarrow> mat \<Rightarrow> error + fl list list" where
  "head_weights m T_output T_input pad qh kh =
     bind_result (pad_fill pad (attn_scores (mha_d_k m) qh kh)) (\<lambda>s.
     bind_result (causal_fill m T_output T_input s) (\<lambda>s'.
     Inr (map softmax_row s')))"

text \<open>The attention weights of one batch element, a list over the heads.\<close>

definition attn_weights1 ::
  "MultiHeadAttention \<Rightarrow> int list option \<Rightarrow> mat \<Rightarrow> mat \<Rightarrow> error + fl list list list" where
  "attn_weights1 m pad qn kn =
     bind_result (split_heads (mha_n_heads m) (mha_d_k m) qn) (\<lambda>qs.
     bind_result (split_heads (mha_n_heads m) (mha_d_k m) kn) (\<lambda>ks.
     traverse (\<lambda>(qh, kh). head_weights m (length qn) (length kn) pad qh kh) (zip qs ks)))"

text \<open>The padding mask (N, T_input), one row per batch element (a single row serves all).\<close>

definition pad_rows :: "nat \<Rightarrow> int list list option \<Rightarrow> error + int list option list" where
  "pad_rows N pad_mask =
     (case pad_mask of
        None \<Rightarrow> Inr (replicate N None)
      | Some pm \<Rightarrow> bind_result (expand N pm) (\<lambda>rows. Inr (map Some rows)))"

text \<open>
  The value of the local variable \<^verbatim>\<open>attn_weights\<close> of \<^verbatim>\<open>MultiHeadAttention.forward\<close>,
  indexed batch, head, query position, key position.
\<close>

definition attn_weights ::
  "MultiHeadAttention \<Rightarrow> tensor3 \<Rightarrow> tensor3 \<Rightarrow> int list list option \<Rightarrow>
   error + fl list list list list" where
  "attn_weights m q k pad_mask =
     bind_result (Linear_forward3 (mha_query m) q) (\<lambda>q'.
     bind_result (Linear_forward3 (mha_key m) k) (\<lambda>k'.
     if length k' \<noteq> length q' then Inl ShapeError
     else bind_result (pad_rows (length q') pad_mask) (\<lambda>pads.
       traverse (\<lambda>(pad, qn, kn). attn_weights1 m pad qn kn) (zip pads (zip q' k')))))"

text \<open>
  \<^verbatim>\<open>A = attn_weights @ v\<close>, then \<^verbatim>\<open>A.transpose(1, 2).contiguous().view(N, T_output, d_k * n_heads)\<close>
  for one batch element: position \<open>t\<close> carries the heads' outputs one after the other.
\<close>

definition weighted_values :: "fl list list \<Rightarrow> mat \<Rightarrow> nat \<Rightarrow> mat" where
  "weighted_values w vh dk =
     map (\<lambda>wi. map (\<lambda>c. dot wi (map (\<lambda>vj. vj ! c) vh)) [0..<dk]) w"

definition merge_heads :: "mat list \<Rightarrow> nat \<Rightarrow> mat" where
  "merge_heads A T_output = map (\<lambda>t. concat (map (\<lambda>Ah. Ah ! t) A)) [0..<T_output]"

definition attend1 ::
  "MultiHeadAttention \<Rightarrow> nat \<Rightarrow> nat \<Rightarrow> fl list list list \<Rightarrow> mat \<Rightarrow> error + mat" where
  "attend1 m T_output T_input wn vn =
     (if length vn \<noteq> T_input then Inl ShapeError
      else bind_result (split_heads (mha_n_heads m) (mha_d_k m) vn) (\<lambda>vs.
        traverse (Linear_forward (mha_fc m))
          (merge_heads (map2 (\<lambda>w vh. weighted_values w vh (mha_d_k m)) wn vs) T_output)))"

definition MultiHeadAttention_forward ::
  "MultiHeadAttention \<Rightarrow> tensor3 \<Rightarrow> tensor3 \<Rightarrow> tensor3 \<Rightarrow> int list list option \<Rightarrow>
   error + tensor3" where
  "MultiHeadAttention_forward m q k v pad_mask =
     bind_result (Linear_forward3 (mha_value m) v) (\<lambda>v'.
     bind_result (attn_weights m q k pad_mask) (\<lambda>w.
     if length v' \<noteq> length q then Inl ShapeError
     else traverse (\<lambda>(wn, qn, kn, vn). attend1 m (length qn) (length kn) wn vn)
            (zip w (zip q (zip k v')))))"


text \<open>
  The positions the specification calls masked for query \<open>i\<close> of batch element \<open>n\<close>:
  key \<open>j\<close> has padding-mask entry 0, or the attention is causal and \<open>j\<close> is later
  than \<open>i\<close>.
\<close>

definition masked_position :: "bool \<Rightarrow> int list list option \<Rightarrow> nat \<Rightarrow> nat \<Rightarrow> nat \<Rightarrow> bool" where
  "masked_position c pad_mask n i j =
     ((case pad_mask of None \<Rightarrow> False | Some pm \<Rightarrow> pm ! n ! j = 0) \<or> (c \<and> i < j))"

text \<open>
  The shapes the forward call is specified for: a tensor of shape (N, T, d), and an
  optional padding mask of shape (N, T).
\<close>

definition has_shape :: "nat \<Rightarrow> nat \<Rightarrow> nat \<Rightarrow> 'a list list list \<Rightarrow> bool" where
  "has_shape N T d x =
     (length x = N \<and> (\<forall>m\<in>set x. length m = T \<and> (\<forall>r\<in>set m. length r = d)))"

definition mask_shape :: "nat \<Rightarrow> nat \<Rightarrow> int list list option \<Rightarrow> bool" where
  "mask_shape N T pad_mask =
     (case pad_mask of None \<Rightarrow> True
      | Some pm \<Rightarrow> length pm = N \<and> (\<forall>r\<in>set pm. length r = T))"

text \<open>
  The parameters \<^verbatim>\<open>nn.Linear(n_in, n_out)\<close> creates: a weight of shape (n_out, n_in) and
  a bias of length n_out.
\<close>

definition linear_shape :: "nat \<Rightarrow> nat \<Rightarrow> real list list \<times> real list \<Rightarrow> bool" where
  "linear_shape n_in n_out p =
     (length (fst p) = n_out \<and> length (snd p) = n_out \<and> (\<forall>w\<in>set (fst p). length w = n_in))"


section \<open>Encoder and decoder blocks\<close>

type_synonym layer = "tensor3 \<Rightarrow> error + tensor3"
type_synonym linear_params = "real list list \<times> real list"
type_synonym attn_params = "linear_params \<times> linear_params \<times> linear_params \<times> linear_params"

record EncoderBlock =
  eb_ln1 :: layer
  eb_ln2 :: layer
  eb_mha :: MultiHeadAttention
  eb_ann :: layer

definition EncoderBlock_init ::
  "nat \<Rightarrow> nat \<Rightarrow> nat \<Rightarrow> nat \<Rightarrow> layer \<times> layer \<times> attn_params \<times> layer \<Rightarrow> EncoderBlock" where
  "EncoderBlock_init dk d_model nh max_len p =
     (case p of (ln1, ln2, (pk, pq, pv, pfc), ann) \<Rightarrow>
        \<lparr>eb_ln1 = ln1, eb_ln2 = ln2,
         eb_mha = MultiHeadAttention_init dk d_model nh max_len False pk pq pv pfc,
         eb_ann = ann\<rparr>)"

definition EncoderBlock_forward ::
  "EncoderBlock \<Rightarrow> tensor3 \<Rightarrow> int list list option \<Rightarrow> error + tensor3" where
  "EncoderBlock_forward b x pad_mask =
     bind_result (MultiHeadAttention_forward (eb_mha b) x x x pad_mask) (\<lambda>a.
     bind_result (add_tensor x a) (\<lambda>s1.
     bind_result (eb_ln1 b s1) (\<lambda>x1.
     bind_result (eb_ann b x1) (\<lambda>f.
     bind_result (add_tensor x1 f) (\<lambda>s2.
     bind_result (eb_ln2 b s2) (\<lambda>x2.
     Inr (Dropout_forward x2)))))))"

record DecoderBlock =
  db_ln1 :: layer
  db_ln2 :: layer
  db_ln3 :: layer
  db_mha1 :: MultiHeadAttention
  db_mha2 :: MultiHeadAttention
  db_ann :: layer

definition DecoderBlock_init ::
  "nat \<Rightarrow> nat \<Rightarrow> nat \<Rightarrow> nat \<Rightarrow>
   layer \<times> layer \<times> layer \<times> attn_params \<times> attn_params \<times> layer \<Rightarrow> DecoderBlock" where
  "DecoderBlock_init dk d_model nh max_len p =
     (case p of (ln1, ln2, ln3, (pk1, pq1, pv1, pfc1), (pk2, pq2, pv2, pfc2), ann) \<Rightarrow>
        \<lparr>db_ln1 = ln1, db_ln2 = ln2, db_ln3 = ln3,
         db_mha1 = MultiHeadAttention_init dk d_model nh max_len True pk1 pq1 pv1 pfc1,
         db_mha2 = MultiHeadAttention_init dk d_model nh max_len False pk2 pq2 pv2 pfc2,
         db_ann = ann\<rparr>)"

definition DecoderBlock_forward ::
  "DecoderBlock \<Rightarrow> tensor3 \<Rightarrow> tensor3 \<Rightarrow> int list list option \<Rightarrow> int list list option \<Rightarrow>
   error + tensor3" where
  "DecoderBlock_forward b enc_output dec_input enc_mask dec_mask =
     bind_result (MultiHeadAttention_forward (db_mha1 b) dec_input dec_input dec_input dec_mask) (\<lambda>a1.
     bind_result (add_tensor dec_input a1) (\<lambda>s1.
     bind_result (db_ln1 b s1) (\<lambda>x1.
     bind_result (MultiHeadAttention_forward (db_mha2 b) x1 enc_output enc_output enc_mask) (\<lambda>a2.
     bind_result (add_tensor x1 a2) (\<lambda>s2.
     bind_result (db_ln2 b s2) (\<lambda>x2.
     bind_result (db_ann b x2) (\<lambda>f.
     bind_result (add_tensor x2 f) (\<lambda>s3.
     bind_result (db_ln3 b s3) (\<lambda>x3.
     Inr (Dropout_forward x3))))))))))"

text \<open>
  The decoder block as the specification words it: three sublayers, each wrapped in
  residual connection and normalization, then dropout. The attention engine is one
  operation configured by its causal flag.
\<close>

definition spec_residual_norm :: "layer \<Rightarrow> layer \<Rightarrow> layer" where
  "spec_residual_norm layer_norm sublayer x =
     bind_result (sublayer x) (\<lambda>y. bind_result (add_tensor x y) layer_norm)"

definition spec_Attention ::
  "bool \<Rightarrow> nat \<Rightarrow> nat \<Rightarrow> nat \<Rightarrow> nat \<Rightarrow> attn_params \<Rightarrow>
   tensor3 \<Rightarrow> tensor3 \<Rightarrow> tensor3 \<Rightarrow> int list list option \<Rightarrow> error + tensor3" where
  "spec_Attention c dk d_model nh max_len p q k v pad_mask =
     (case p of (pk, pq, pv, pfc) \<Rightarrow>
        MultiHeadAttention_forward (MultiHeadAttention_init dk d_model nh max_len c pk pq pv pfc)
          q k v pad_mask)"

definition spec_DecoderBlock ::
  "nat \<Rightarrow> nat \<Rightarrow> nat \<Rightarrow> nat \<Rightarrow>
   layer \<times> layer \<times> layer \<times> attn_params \<times> attn_params \<times> layer \<Rightarrow>
   tensor3 \<Rightarrow> tensor3 \<Rightarrow> int list list option \<Rightarrow> int list list option \<Rightarrow> error + tensor3" where
  "spec_DecoderBlock dk d_model nh max_len p enc_output dec_input enc_mask dec_mask =
     (case p of (ln1, ln2, ln3, self_p, cross_p, ff) \<Rightarrow>
        bind_result
          (spec_residual_norm ln1 (\<lambda>x. spec_Attention True dk d_model nh max_len self_p x x x dec_mask)
             dec_input) (\<lambda>x1.
        bind_result
          (spec_residual_norm ln2
             (\<lambda>x. spec_Attention False dk d_model nh max_len cross_p x enc_output enc_output enc_mask)
             x1) (\<lambda>x2.
        bind_result (spec_residual_norm ln3 ff x2) (\<lambda>x3.
        Inr (Dropout_forward x3)))))"

section \<open>PositionalEncoding\<close>

record PositionalEncoding =
  pe :: "real list list"

text \<open>
  \<^verbatim>\<open>pe[0, :, start::2] = src\<close>: the target has the columns \<open>start, start + 2, ...\<close>
  below \<open>d_model\<close>; the source, of width \<open>w\<close>, must have as many columns, or one column
  that is repeated.
\<close>

definition assign_stride2 :: "nat \<Rightarrow> real list \<Rightarrow> real list \<Rightarrow> real list" where
  "assign_stride2 start row v =
     map (\<lambda>i. if start \<le> i \<and> even (i - start) then v ! ((i - start) div 2) else row ! i)
       [0..<length row]"

definition setitem_stride2 ::
  "nat \<Rightarrow> nat \<Rightarrow> real list list \<Rightarrow> nat \<Rightarrow> real list list \<Rightarrow> error + real list list" where
  "setitem_stride2 start d_model tbl w src =
     (let cnt = (d_model + 1 - start) div 2 in
      if w = cnt then Inr (map2 (assign_stride2 start) tbl src)
      else if w = 1
      then Inr (map2 (\<lambda>row v. assign_stride2 start row (replicate cnt (v ! 0))) tbl src)
      else Inl ShapeError)"

text \<open>
  \<^verbatim>\<open>__init__\<close>. \<^verbatim>\<open>torch.arange(0, d_model, 2)\<close> has \<open>(d_model + 1) div 2\<close> entries;
  \<^verbatim>\<open>-math.log(10000.0) / d_model\<close> raises for \<open>d_model = 0\<close>.
\<close>

definition PositionalEncoding_init :: "nat \<Rightarrow> nat \<Rightarrow> error + PositionalEncoding" where
  "PositionalEncoding_init d_model max_len =
     (let position = map real [0..<max_len];
          exp_term = map (\<lambda>k. real (2 * k)) [0..<(d_model + 1) div 2]
      in if d_model = 0 then Inl ZeroDivisionError
         else
           (let div_term = map (\<lambda>e. exp (e * (- ln 10000 / real d_model))) exp_term;
                pe0 = replicate max_len (replicate d_model 0);
                w = length div_term
            in bind_result
                 (setitem_stride2 0 d_model pe0 w
                    (map (\<lambda>p. map (\<lambda>d. sin (p * d)) div_term) position)) (\<lambda>pe1.
               bind_result
                 (setitem_stride2 1 d_model pe1 w
                    (map (\<lambda>p. map (\<lambda>d. cos (p * d)) div_term) position)) (\<lambda>pe2.
               Inr \<lparr>pe = pe2\<rparr>))))"

text \<open>\<^verbatim>\<open>x + self.pe[:, :x.size(1), :]\<close>, then dropout.\<close>

definition add_positions :: "real list list \<Rightarrow> mat \<Rightarrow> error + mat" where
  "add_positions tbl xn =
     bind_result (expand (length xn) (take (length xn) tbl)) (\<lambda>rows.
       traverse (\<lambda>(xrow, prow).
           bind_result (expand (length xrow) prow) (\<lambda>pr. Inr (map2 fl_add xrow (map Fin pr))))
         (zip xn rows))"

definition PositionalEncoding_forward :: "PositionalEncoding \<Rightarrow> tensor3 \<Rightarrow> error + tensor3" where
  "PositionalEncoding_forward P x =
     bind_result (traverse (add_positions (pe P)) x) (\<lambda>y. Inr (Dropout_forward y))"

section \<open>Encoder, Decoder, Transformer\<close>

record Embedding =
  num_embeddings :: nat
  emb_weight :: "real list list"

text \<open>
  Modelled from the spec: the lookup of \<^verbatim>\<open>nn.Embedding\<close> (PyTorch, not part of the
  notebooks): maps a token id in \<open>0 ..< vocab_size\<close> to its row of the table and fails
  with an out-of-range error on any other id.
\<close>

definition embedding_lookup :: "Embedding \<Rightarrow> int \<Rightarrow> error + vec" where
  "embedding_lookup E tok =
     (if 0 \<le> tok \<and> tok < int (num_embeddings E) then Inr (map Fin (emb_weight E ! nat tok))
      else Inl IndexError)"

definition Embedding_forward :: "Embedding \<Rightarrow> int list list \<Rightarrow> error + tensor3" where
  "Embedding_forward E x = traverse (traverse (embedding_lookup E)) x"

record Encoder =
  enc_embedding :: Embedding
  enc_pos_encoding :: PositionalEncoding
  enc_transformer_blocks :: "EncoderBlock list"
  enc_ln :: layer

definition Encoder_init ::
  "nat \<Rightarrow> nat \<Rightarrow> nat \<Rightarrow> nat \<Rightarrow> nat \<Rightarrow> nat \<Rightarrow> real list list \<Rightarrow>
   (nat \<Rightarrow> layer \<times> layer \<times> attn_params \<times> layer) \<Rightarrow> layer \<Rightarrow> error + Encoder" where
  "Encoder_init vocab_size max_len dk d_model nh n_layers emb block_params final_ln =
     bind_result (PositionalEncoding_init d_model max_len) (\<lambda>pos.
       Inr \<lparr>enc_embedding = \<lparr>num_embeddings = vocab_size, emb_weight = emb\<rparr>,
            enc_pos_encoding = pos,
            enc_transformer_blocks =
              map (\<lambda>l. EncoderBlock_init dk d_model nh max_len (block_params l)) [0..<n_layers],
            enc_ln = final_ln\<rparr>)"

fun Encoder_blocks :: "EncoderBlock list \<Rightarrow> tensor3 \<Rightarrow> int list list option \<Rightarrow> error + tensor3" where
  "Encoder_blocks [] x pad_mask = Inr x"
| "Encoder_blocks (block # blocks) x pad_mask =
     bind_result (EncoderBlock_forward block x pad_mask) (\<lambda>x'. Encoder_blocks blocks x' pad_mask)"

definition Encoder_forward :: "Encoder \<Rightarrow> int list list \<Rightarrow> int list list option \<Rightarrow> error + tensor3" where
  "Encoder_forward e x pad_mask =
     bind_result (Embedding_forward (enc_embedding e) x) (\<lambda>x0.
     bind_result (PositionalEncoding_forward (enc_pos_encoding e) x0) (\<lambda>x1.
     bind_result (Encoder_blocks (enc_transformer_blocks e) x1 pad_mask) (\<lambda>x2.
     enc_ln e x2)))"

record Decoder =
  dec_embedding :: Embedding
  dec_pos_encoding :: PositionalEncoding
  dec_transformer_blocks :: "DecoderBlock list"
  dec_ln :: layer
  dec_fc :: Linear

definition Decoder_init ::
  "nat \<Rightarrow> nat \<Rightarrow> nat \<Rightarrow> nat \<Rightarrow> nat \<Rightarrow> nat \<Rightarrow> real list list \<Rightarrow>
   (nat \<Rightarrow> layer \<times> layer \<times> layer \<times> attn_params \<times> attn_params \<times> layer) \<Rightarrow> layer \<Rightarrow>
   linear_params \<Rightarrow> error + Decoder" where
  "Decoder_init vocab_size max_len dk d_model nh n_layers emb block_params final_ln pfc =
     bind_result (PositionalEncoding_init d_model max_len) (\<lambda>pos.
       Inr \<lparr>dec_embedding = \<lparr>num_embeddings = vocab_size, emb_weight = emb\<rparr>,
            dec_pos_encoding = pos,
            dec_transformer_blocks =
              map (\<lambda>l. DecoderBlock_init dk d_model nh max_len (block_params l)) [0..<n_layers],
            dec_ln = final_ln,
            dec_fc = Linear_init d_model vocab_size pfc\<rparr>)"

fun Decoder_blocks ::
  "DecoderBlock list \<Rightarrow> tensor3 \<Rightarrow> tensor3 \<Rightarrow> int list list option \<Rightarrow> int list list option \<Rightarrow>
   error + tensor3" where
  "Decoder_blocks [] enc_output x enc_mask dec_mask = Inr x"
| "Decoder_blocks (block # blocks) enc_output x enc_mask dec_mask =
     bind_result (DecoderBlock_forward block enc_output x enc_mask dec_mask) (\<lambda>x'.
       Decoder_blocks blocks enc_output x' enc_mask dec_mask)"

definition Decoder_forward ::
  "Decoder \<Rightarrow> tensor3 \<Rightarrow> int list list \<Rightarrow> int list list option \<Rightarrow> int list list option \<Rightarrow>
   error + tensor3" where
  "Decoder_forward d enc_output dec_input enc_mask dec_mask =
     bind_result (Embedding_forward (dec_embedding d) dec_input) (\<lambda>x0.
     bind_result (PositionalEncoding_forward (dec_pos_encoding d) x0) (\<lambda>x1.
     bind_result (Decoder_blocks (dec_transformer_blocks d) enc_output x1 enc_mask dec_mask) (\<lambda>x2.
     bind_result (dec_ln d x2) (\<lambda>x3.
     Linear_forward3 (dec_fc d) x3))))"

record Transformer =
  tr_encoder :: Encoder
  tr_decoder :: Decoder

definition Transformer_init :: "Encoder \<Rightarrow> Decoder \<Rightarrow> Transformer" where
  "Transformer_init encoder decoder = \<lparr>tr_encoder = encoder, tr_decoder = decoder\<rparr>"

definition Transformer_forward ::
  "Transformer \<Rightarrow> int list list \<Rightarrow> int list list \<Rightarrow> int list list option \<Rightarrow>
   int list list option \<Rightarrow> error + tensor3" where
  "Transformer_forward t enc_input dec_input enc_mask dec_mask =
     bind_result (Encoder_forward (tr_encoder t) enc_input enc_mask) (\<lambda>enc_output.
       Decoder_forward (tr_decoder t) enc_output dec_input enc_mask dec_mask)"

section \<open>Greedy generation\<close>

text \<open>
  \<^verbatim>\<open>torch.argmax\<close> over the vocabulary axis: the index of the first maximal entry, NaN
  counting as larger than every number; an empty axis raises.
\<close>

fun fl_gt :: "fl \<Rightarrow> fl \<Rightarrow> bool" where
  "fl_gt (Fin a) (Fin b) = (b < a)"
| "fl_gt NaN (Fin b) = True"
| "fl_gt _ NaN = False"

fun argmax_from :: "nat \<Rightarrow> fl \<Rightarrow> nat \<Rightarrow> fl list \<Rightarrow> nat" where
  "argmax_from best bv i [] = best"
| "argmax_from best bv i (x # xs) =
     (if fl_gt x bv then argmax_from i x (Suc i) xs else argmax_from best bv (Suc i) xs)"

definition argmax :: "fl list \<Rightarrow> error + nat" where
  "argmax xs = (case xs of [] \<Rightarrow> Inl IndexError | x # rest \<Rightarrow> Inr (argmax_from 0 x 1 rest))"

text \<open>\<^verbatim>\<open>dec_output[:, -1, :]\<close>\<close>

definition last_position :: "tensor3 \<Rightarrow> error + mat" where
  "last_position out = traverse (\<lambda>m. if m = [] then Inl IndexError else Inr (last m)) out"

text \<open>\<^verbatim>\<open>prediction_id.view(1, 1)\<close>: exactly one batch element.\<close>

definition view_1_1 :: "nat list \<Rightarrow> error + int" where
  "view_1_1 p = (case p of [x] \<Rightarrow> Inr (int x) | _ \<Rightarrow> Inl ShapeError)"

text \<open>
  The loop shared by \<^verbatim>\<open>translate\<close> (32 steps, end id 0) and the generation cell of
  \<^verbatim>\<open>Decoder.ipynb\<close> (20 steps, end id \<^verbatim>\<open>tokenizer.sep_token_id\<close>):
  \<^verbatim>\<open>for _ in range(n): p = predict(ids, mask); ids = hstack(ids, p); mask = ones_like(ids);
  if p == eos: break\<close>. The state is the pair of the id sequence and its mask.
\<close>

fun generation_loop ::
  "(int list \<Rightarrow> int list \<Rightarrow> error + int) \<Rightarrow> int \<Rightarrow> nat \<Rightarrow> int list \<times> int list \<Rightarrow>
   error + (int list \<times> int list)" where
  "generation_loop predict eos 0 s = Inr s"
| "generation_loop predict eos (Suc n) s =
     bind_result (predict (fst s) (snd s)) (\<lambda>p.
       let ids = fst s @ [p]; ones = replicate (length ids) 1
       in if p = eos then Inr (ids, ones) else generation_loop predict eos n (ids, ones))"

text \<open>The body of the loop of \<^verbatim>\<open>translate\<close> up to the arg-max.\<close>

definition translate_predict ::
  "Decoder \<Rightarrow> tensor3 \<Rightarrow> int list \<Rightarrow> int list \<Rightarrow> int list \<Rightarrow> error + int" where
  "translate_predict decoder enc_output enc_mask dec_input_ids dec_attn_mask =
     bind_result
       (Decoder_forward decoder enc_output [dec_input_ids] (Some [enc_mask]) (Some [dec_attn_mask]))
       (\<lambda>dec_output.
     bind_result (last_position dec_output) (\<lambda>logits.
     bind_result (traverse argmax logits) view_1_1))"

text \<open>
  \<^verbatim>\<open>translate\<close>: the tokenizer is external, so the function takes the ids and the
  attention mask of the input sentence and returns the ids it would decode and print,
  \<^verbatim>\<open>dec_input_ids[0, 1:]\<close>.
\<close>

definition translate :: "Encoder \<Rightarrow> Decoder \<Rightarrow> int list \<Rightarrow> int list \<Rightarrow> error + int list" where
  "translate encoder decoder input_ids attention_mask =
     bind_result (Encoder_forward encoder [input_ids] (Some [attention_mask])) (\<lambda>enc_output.
     bind_result
       (generation_loop (translate_predict decoder enc_output attention_mask) 0 32 ([65001], [1]))
       (\<lambda>s. Inr (tl (fst s))))"

text \<open>
  The generation cell of \<^verbatim>\<open>Decoder.ipynb\<close>; \<open>model\<close> is the forward function of the
  decoder-only model, from ids and mask to logits.
\<close>

definition generate_predict ::
  "(int list list \<Rightarrow> int list list option \<Rightarrow> error + tensor3) \<Rightarrow> int list \<Rightarrow> int list \<Rightarrow> error + int" where
  "generate_predict model input_ids attn_mask =
     bind_result (model [input_ids] (Some [attn_mask])) (\<lambda>outputs.
     bind_result (last_position outputs) (\<lambda>logits.
     bind_result (traverse argmax logits) view_1_1))"

definition generate ::
  "(int list list \<Rightarrow> int list list option \<Rightarrow> error + tensor3) \<Rightarrow> int \<Rightarrow> int list \<Rightarrow> int list \<Rightarrow>
   error + (int list \<times> int list)" where
  "generate model sep_token_id input_ids attn_mask =
     generation_loop (generate_predict model) sep_token_id 20 (input_ids, attn_mask)"

text \<open>
  The state of the loop after \<open>k\<close> iterations none of which has left the loop (each
  produced an id other than the end id); \<open>None\<close> when the loop does not get that far.
\<close>

fun state_after ::
  "(int list \<Rightarrow> int list \<Rightarrow> error + int) \<Rightarrow> int \<Rightarrow> nat \<Rightarrow> int list \<times> int list \<Rightarrow>
   (int list \<times> int list) option" where
  "state_after predict eos 0 s = Some s"
| "state_after predict eos (Suc k) s =
     (case predict (fst s) (snd s) of
        Inl e \<Rightarrow> None
      | Inr p \<Rightarrow>
          if p = eos then None
          else state_after predict eos k (fst s @ [p], replicate (length (fst s @ [p])) 1))"

section \<open>Properties\<close>

subsection \<open>Results and traversals\<close>

lemma bind_result_Inr [simp]: "bind_result (Inr x) f = f x"
  by (simp add: bind_result_def)

lemma bind_result_Inl [simp]: "bind_result (Inl e) f = Inl e"
  by (simp add: bind_result_def)

lemma bind_result_eq_Inr:
  "bind_result r f = Inr y \<longleftrightarrow> (\<exists>x. r = Inr x \<and> f x = Inr y)"
  by (cases r) simp_all

lemma bind_result_assoc:
  "bind_result (bind_result r f) g = bind_result r (\<lambda>x. bind_result (f x) g)"
  by (cases r) simp_all

lemma traverse_Inr_length:
  "traverse f xs = Inr ys \<Longrightarrow> length ys = length xs"
  by (induction xs arbitrary: ys) (auto simp: bind_result_eq_Inr)

lemma traverse_Inr_nth:
  "traverse f xs = Inr ys \<Longrightarrow> i < length xs \<Longrightarrow> f (xs ! i) = Inr (ys ! i)"
proof (induction xs arbitrary: ys i)
  case Nil
  then show ?case by simp
next
  case (Cons x xs)
  then obtain y ys' where y: "f x = Inr y" and ys': "traverse f xs = Inr ys'" and e: "ys = y # ys'"
    by (auto simp: bind_result_eq_Inr)
  show ?case
  proof (cases i)
    case 0
    then show ?thesis using y e by simp
  next
    case (Suc j)
    then show ?thesis using Cons.IH [OF ys', of j] Cons.prems(2) e by simp
  qed
qed

lemma traverse_total:
  "(\<And>x. x \<in> set xs \<Longrightarrow> \<exists>y. f x = Inr y) \<Longrightarrow> \<exists>ys. traverse f xs = Inr ys"
proof (induction xs)
  case Nil
  then show ?case by simp
next
  case (Cons x xs)
  then obtain y where "f x = Inr y" by auto
  moreover from Cons obtain ys where "traverse f xs = Inr ys" by auto
  ultimately show ?case by simp
qed

lemma traverse_map:
  "(\<And>x. x \<in> set xs \<Longrightarrow> f x = Inr (g x)) \<Longrightarrow> traverse f xs = Inr (map g xs)"
  by (induction xs) simp_all

lemma traverse_Inl:
  assumes "x \<in> set xs" and "f x = Inl e"
    and "\<And>y e'. y \<in> set xs \<Longrightarrow> f y = Inl e' \<Longrightarrow> e' = e"
  shows "traverse f xs = Inl e"
  using assms
proof (induction xs)
  case Nil
  then show ?case by simp
next
  case (Cons a xs)
  show ?case
  proof (cases "f a")
    case (Inl e')
    then have "e' = e" using Cons.prems(3) [of a e'] by simp
    then show ?thesis using Inl by simp
  next
    case (Inr b)
    then have "x \<noteq> a" using Cons.prems(2) by auto
    then have mem: "x \<in> set xs" using Cons.prems(1) by simp
    have "\<And>y e'. y \<in> set xs \<Longrightarrow> f y = Inl e' \<Longrightarrow> e' = e"
      using Cons.prems(3) by (meson list.set_intros(2))
    then have "traverse f xs = Inl e" using Cons.IH [OF mem Cons.prems(2)] by blast
    then show ?thesis using Inr by simp
  qed
qed

lemma traverse_Inl_source:
  "traverse f xs = Inl e \<Longrightarrow> \<exists>x\<in>set xs. f x = Inl e"
proof (induction xs)
  case Nil
  then show ?case by simp
next
  case (Cons a xs)
  show ?case
  proof (cases "f a")
    case (Inl e')
    then show ?thesis using Cons.prems by simp
  next
    case (Inr b)
    then have "traverse f xs = Inl e" using Cons.prems by (cases "traverse f xs") simp_all
    then show ?thesis using Cons.IH by auto
  qed
qed

lemma expand_Inr:
  "expand n xs = Inr ys \<Longrightarrow>
     length ys = n \<and> (\<forall>i<n. ys ! i = xs ! (if length xs = n then i else 0))"
  by (auto simp: expand_def split: if_splits list.splits)

lemma expand_same [simp]: "expand (length xs) xs = Inr xs"
  by (simp add: expand_def)

lemma expand_Inr_length: "expand n xs = Inr ys \<Longrightarrow> length xs = n \<or> length xs = 1"
  by (auto simp: expand_def split: if_splits list.splits)

subsection \<open>Arithmetic with NaN and the softmax\<close>

lemma fl_sum_Nil [simp]: "fl_sum [] = Fin 0"
  by (simp add: fl_sum_def)

lemma fl_sum_Cons [simp]: "fl_sum (x # xs) = fl_add x (fl_sum xs)"
  by (simp add: fl_sum_def)

lemma fl_sum_Fin: "fl_sum (map Fin rs) = Fin (sum_list rs)"
  by (induction rs) simp_all

lemma map2_fl_mul_Fin:
  "map2 fl_mul (map Fin a) (map Fin b) = map Fin (map2 (*) a b)"
proof (induction a arbitrary: b)
  case Nil
  then show ?case by simp
next
  case (Cons x a)
  then show ?case by (cases b) simp_all
qed

lemma dot_Fin: "dot (map Fin a) (map Fin b) = Fin (sum_list (map2 (*) a b))"
  by (simp only: dot_def map2_fl_mul_Fin fl_sum_Fin)

lemma dot_NaN_left: "x \<noteq> [] \<Longrightarrow> y \<noteq> [] \<Longrightarrow> hd x = NaN \<Longrightarrow> dot x y = NaN"
  by (cases x; cases y) (simp_all add: dot_def)

lemma dot_NaN_right: "x \<noteq> [] \<Longrightarrow> y \<noteq> [] \<Longrightarrow> hd y = NaN \<Longrightarrow> dot x y = NaN"
proof (cases x; cases y)
  fix a xs b ys
  assume "x = a # xs" "y = b # ys" "hd y = NaN"
  then show "dot x y = NaN" by (cases a) (simp_all add: dot_def)
qed simp_all

lemma map2_Fin_rows:
  "\<exists>r'. map2 (\<lambda>w b. fl_add (dot (map Fin w) (map Fin r)) (Fin b)) W bs = map Fin r'"
proof (induction W arbitrary: bs)
  case Nil
  show ?case by (rule exI [of _ "[]"]) simp
next
  case (Cons w W)
  show ?case
  proof (cases bs)
    case Nil
    then show ?thesis by (intro exI [of _ "[]"]) simp
  next
    case (Cons b bs')
    from Cons.IH [of bs'] obtain r' where
      "map2 (\<lambda>w b. fl_add (dot (map Fin w) (map Fin r)) (Fin b)) W bs' = map Fin r'" by blast
    then show ?thesis using Cons
      by (intro exI [of _ "(sum_list (map2 (*) w r) + b) # r'"]) (simp add: dot_Fin)
  qed
qed

lemma Linear_forward_Fin:
  "Linear_forward L (map Fin r) = Inr y \<Longrightarrow> \<exists>r'. y = map Fin r'"
proof -
  assume "Linear_forward L (map Fin r) = Inr y"
  then have "y = map2 (\<lambda>w b. fl_add (dot (map Fin w) (map Fin r)) (Fin b)) (weight L) (bias L)"
    by (simp add: Linear_forward_def split: if_splits)
  then show ?thesis using map2_Fin_rows [of r "weight L" "bias L"] by simp
qed

lemma Linear_forward3_Fin:
  assumes "Linear_forward3 L (map (map (map Fin)) x) = Inr y"
  shows "length y = length x"
    and "n < length x \<Longrightarrow> length (y ! n) = length (x ! n)"
    and "n < length x \<Longrightarrow> i < length (x ! n) \<Longrightarrow> \<exists>r. y ! n ! i = map Fin r"
proof -
  from assms have tr: "traverse (traverse (Linear_forward L)) (map (map (map Fin)) x) = Inr y"
    by (simp add: Linear_forward3_def)
  from traverse_Inr_length [OF tr] show "length y = length x" by simp
  {
    assume n: "n < length x"
    from traverse_Inr_nth [OF tr, of n] n
    have tn: "traverse (Linear_forward L) (map (map Fin) (x ! n)) = Inr (y ! n)" by simp
    from traverse_Inr_length [OF tn] have a: "length (y ! n) = length (x ! n)" by simp
    {
      assume i: "i < length (x ! n)"
      from traverse_Inr_nth [OF tn, of i] i
      have "Linear_forward L (map Fin (x ! n ! i)) = Inr (y ! n ! i)" by simp
      then have "\<exists>r. y ! n ! i = map Fin r" by (rule Linear_forward_Fin)
    }
    note a this
  }
  then show "n < length x \<Longrightarrow> length (y ! n) = length (x ! n)"
    and "n < length x \<Longrightarrow> i < length (x ! n) \<Longrightarrow> \<exists>r. y ! n ! i = map Fin r"
    by simp_all
qed

lemma Linear_forward3_shape:
  assumes "Linear_forward3 L x = Inr y"
  shows "length y = length x \<and> (\<forall>n<length x. length (y ! n) = length (x ! n))"
proof -
  from assms have tr: "traverse (traverse (Linear_forward L)) x = Inr y"
    by (simp add: Linear_forward3_def)
  have "length (y ! n) = length (x ! n)" if "n < length x" for n
    using traverse_Inr_length [OF traverse_Inr_nth [OF tr that]] .
  then show ?thesis using traverse_Inr_length [OF tr] by simp
qed

lemma Linear_forward_NaN:
  assumes "Linear_forward L a = Inr y" and "a \<noteq> []" and "hd a = NaN"
    and "[] \<notin> set (weight L)"
  shows "length y = min (length (weight L)) (length (bias L)) \<and> (\<forall>c<length y. y ! c = NaN)"
proof -
  from assms(1) have y: "y = map2 (\<lambda>w b. fl_add (dot (map Fin w) a) (Fin b)) (weight L) (bias L)"
    by (simp add: Linear_forward_def split: if_splits)
  have "y ! c = NaN" if c: "c < length y" for c
  proof -
    from c y have cw: "c < length (weight L)" by simp
    then have "weight L ! c \<noteq> []" using assms(4) nth_mem by metis
    then have "dot (map Fin (weight L ! c)) a = NaN"
      using assms(2,3) by (intro dot_NaN_right) simp_all
    then show ?thesis using c y by simp
  qed
  then show ?thesis using y by simp
qed

lemma sum_list_divide_real: "sum_list (map (\<lambda>e. e / S) rs) = sum_list rs / (S::real)"
  by (induction rs) (simp_all add: add_divide_distrib)

lemma sum_list_pos_real:
  "\<forall>x\<in>set rs. 0 \<le> (x::real) \<Longrightarrow> y \<in> set rs \<Longrightarrow> 0 < y \<Longrightarrow> 0 < sum_list rs"
proof (induction rs)
  case Nil
  then show ?case by simp
next
  case (Cons a rs)
  have nn: "0 \<le> sum_list rs" using Cons.prems(1) by (simp add: sum_list_nonneg)
  show ?case
  proof (cases "y = a")
    case True
    then show ?thesis using nn Cons.prems by simp
  next
    case False
    then have "0 < sum_list rs" using Cons by simp
    then show ?thesis using Cons.prems(1) by (simp add: add_nonneg_pos)
  qed
qed

lemma map_fl_div_Fin:
  "S \<noteq> 0 \<Longrightarrow> map (\<lambda>e. fl_div e (Fin S)) (map Fin xs) = map Fin (map (\<lambda>e. e / S) xs)"
  by (induction xs) simp_all

lemma softmax_row_length [simp]: "length (softmax_row xs) = length xs"
  by (simp add: softmax_row_def Let_def)

lemma softmax_row_finite:
  assumes fin: "\<forall>j<length row. row ! j = Masked \<or> (\<exists>x. row ! j = Score (Fin x))"
    and open_pos: "\<exists>j<length row. row ! j \<noteq> Masked"
  shows "fl_sum (softmax_row row) = Fin 1"
    and "\<forall>j<length row. row ! j = Masked \<longrightarrow> softmax_row row ! j = Fin 0"
proof -
  define ex where "ex = (\<lambda>s. case s of Masked \<Rightarrow> (0::real) | Score (Fin x) \<Rightarrow> exp x | Score NaN \<Rightarrow> 0)"
  have e: "exp_score (row ! j) = Fin (ex (row ! j))" if "j < length row" for j
    using fin that by (auto simp: ex_def)
  have es: "map exp_score row = map Fin (map ex row)"
    by (rule nth_equalityI) (simp_all add: e)
  define S where "S = sum_list (map ex row)"
  have nonneg: "\<forall>x\<in>set (map ex row). 0 \<le> x"
    by (auto simp: ex_def split: score.splits fl.splits)
  from open_pos obtain j where j: "j < length row" "row ! j \<noteq> Masked" by blast
  with fin obtain x where "row ! j = Score (Fin x)" by blast
  then have "0 < ex (row ! j)" by (simp add: ex_def)
  moreover have "ex (row ! j) \<in> set (map ex row)" using j by simp
  ultimately have S: "0 < S" unfolding S_def using nonneg sum_list_pos_real by blast
  have sm: "softmax_row row = map Fin (map (\<lambda>e. e / S) (map ex row))"
    using S by (simp only: softmax_row_def Let_def es fl_sum_Fin S_def [symmetric]) (simp only: map_fl_div_Fin)
  show "fl_sum (softmax_row row) = Fin 1"
    using S by (simp only: sm fl_sum_Fin sum_list_divide_real S_def [symmetric]) simp
  show "\<forall>j<length row. row ! j = Masked \<longrightarrow> softmax_row row ! j = Fin 0"
    by (simp add: sm ex_def)
qed

lemma softmax_row_all_masked:
  assumes "\<forall>j<length row. row ! j = Masked" and "j < length row"
  shows "softmax_row row ! j = NaN"
proof -
  have es: "map exp_score row = map Fin (replicate (length row) 0)"
    by (rule nth_equalityI) (simp_all add: assms(1))
  show ?thesis using assms(2)
    by (simp add: softmax_row_def Let_def es fl_sum_Fin sum_list_replicate del: map_replicate)
qed

subsection \<open>Masks and attention weights\<close>

lemma masked_fill_Inr:
  assumes "masked_fill s m = Inr s'"
  shows "length s' = length s \<and> (\<forall>i<length s. length (s' ! i) = length (s ! i) \<and> (\<forall>j<length (s ! i).
         s' ! i ! j =
           (if m ! (if length m = length s then i else 0)
                 ! (if length (m ! (if length m = length s then i else 0)) = length (s ! i) then j else 0)
            then Masked else s ! i ! j)))"
proof -
  from assms obtain rows where rows: "expand (length s) m = Inr rows"
    and tr: "traverse (\<lambda>(srow, mrow).
         bind_result (expand (length srow) mrow) (\<lambda>mr.
           Inr (map2 (\<lambda>x b. if b then Masked else x) srow mr)))
         (zip s rows) = Inr s'"
    by (auto simp: masked_fill_def bind_result_eq_Inr)
  from expand_Inr [OF rows] have lr: "length rows = length s"
    and rn: "\<And>i. i < length s \<Longrightarrow> rows ! i = m ! (if length m = length s then i else 0)"
    by auto
  from traverse_Inr_length [OF tr] lr have len: "length s' = length s" by simp
  have "length (s' ! i) = length (s ! i) \<and> (\<forall>j<length (s ! i).
         s' ! i ! j =
           (if m ! (if length m = length s then i else 0)
                 ! (if length (m ! (if length m = length s then i else 0)) = length (s ! i) then j else 0)
            then Masked else s ! i ! j))" if i: "i < length s" for i
  proof -
    from i have "i < length (zip s rows)" using lr by simp
    from traverse_Inr_nth [OF tr this] i lr
    obtain mr where mr: "expand (length (s ! i)) (rows ! i) = Inr mr"
      and si: "s' ! i = map2 (\<lambda>x b. if b then Masked else x) (s ! i) mr"
      by (auto simp: bind_result_eq_Inr)
    from expand_Inr [OF mr] have lm: "length mr = length (s ! i)"
      and mn: "\<And>j. j < length (s ! i) \<Longrightarrow>
          mr ! j = (rows ! i) ! (if length (rows ! i) = length (s ! i) then j else 0)"
      by auto
    show ?thesis using si lm mn rn [OF i] by simp
  qed
  with len show ?thesis by blast
qed

lemma masked_fill_Inr_shape:
  assumes "masked_fill s m = Inr s'" and "i < length s"
  shows "(length m = length s \<or> length m = 1)
         \<and> (length (m ! (if length m = length s then i else 0)) = length (s ! i)
              \<or> length (m ! (if length m = length s then i else 0)) = 1)"
proof -
  from assms(1) obtain rows where rows: "expand (length s) m = Inr rows"
    and tr: "traverse (\<lambda>(srow, mrow).
         bind_result (expand (length srow) mrow) (\<lambda>mr.
           Inr (map2 (\<lambda>x b. if b then Masked else x) srow mr)))
         (zip s rows) = Inr s'"
    by (auto simp: masked_fill_def bind_result_eq_Inr)
  from expand_Inr [OF rows] assms(2) have lr: "length rows = length s"
    and rn: "rows ! i = m ! (if length m = length s then i else 0)"
    by auto
  from assms(2) lr have "i < length (zip s rows)" by simp
  from traverse_Inr_nth [OF tr this] assms(2) lr
  obtain mr where mr: "expand (length (s ! i)) (rows ! i) = Inr mr"
    by (auto simp: bind_result_eq_Inr)
  from expand_Inr_length [OF rows] expand_Inr_length [OF mr] rn show ?thesis by simp
qed

lemma split_heads_Inr:
  assumes "split_heads h dk x = Inr ys"
  shows "length ys = h"
    and "a < h \<Longrightarrow> length (ys ! a) = length x"
    and "a < h \<Longrightarrow> i < length x \<Longrightarrow> ys ! a ! i = take dk (drop (a * dk) (x ! i))"
  using assms by (auto simp: split_heads_def split: if_splits)

lemma attn_scores_nth:
  "length (attn_scores dk qh kh) = length qh"
  "i < length qh \<Longrightarrow> length (attn_scores dk qh kh ! i) = length kh"
  "i < length qh \<Longrightarrow> j < length kh \<Longrightarrow>
     attn_scores dk qh kh ! i ! j = Score (fl_div (dot (qh ! i) (kh ! j)) (Fin (sqrt (real dk))))"
  by (simp_all add: attn_scores_def)

lemma tril_ones_nth:
  "length (tril_ones n) = n"
  "i < n \<Longrightarrow> length (tril_ones n ! i) = n"
  "i < n \<Longrightarrow> j < n \<Longrightarrow> tril_ones n ! i ! j = (if j \<le> i then 1 else 0)"
  by (simp_all add: tril_ones_def)

lemma pad_fill_Inr:
  assumes "pad_fill pad s = Inr s'"
    and "\<And>r. pad = Some r \<Longrightarrow> length r = length (s ! i)"
    and "i < length s"
  shows "length s' = length s \<and> length (s' ! i) = length (s ! i) \<and>
         (\<forall>j<length (s ! i). s' ! i ! j =
            (if (case pad of None \<Rightarrow> False | Some r \<Rightarrow> r ! j = 0) then Masked else s ! i ! j))"
proof (cases pad)
  case None
  then show ?thesis using assms(1) by (simp add: pad_fill_def)
next
  case (Some r)
  then have mf: "masked_fill s [map (\<lambda>x. x = 0) r] = Inr s'"
    using assms(1) by (simp add: pad_fill_def)
  have lr: "length r = length (s ! i)" using assms(2) Some by simp
  from masked_fill_Inr [OF mf] assms(3)
  have a: "length s' = length s" and b: "length (s' ! i) = length (s ! i)"
    and c: "\<forall>j<length (s ! i). s' ! i ! j =
           (if [map (\<lambda>x. x = 0) r] ! (if length [map (\<lambda>x. x = 0) r] = length s then i else 0)
                 ! (if length ([map (\<lambda>x. x = 0) r] ! (if length [map (\<lambda>x. x = 0) r] = length s then i else 0)) = length (s ! i) then j else 0)
            then Masked else s ! i ! j)"
    by blast+
  have idx: "[map (\<lambda>x. x = 0) r] ! (if length [map (\<lambda>x. x = 0) r] = length s then i else 0)
      = map (\<lambda>x. x = 0) r"
  proof (cases "length s = 1")
    case True
    then have "i = 0" using assms(3) by simp
    then show ?thesis by simp
  next
    case False
    then show ?thesis by simp
  qed
  show ?thesis using a b c Some lr unfolding idx by simp
qed

lemma causal_fill_Inr:
  assumes "causal_fill m T_output T_input s = Inr s'"
    and "mha_causal m = c"
    and "mha_causal_mask m = (if c then Some (tril_ones max_len) else None)"
    and "c \<Longrightarrow> T_output \<le> max_len \<and> T_input \<le> max_len"
    and "length s = T_output" and "length (s ! i) = T_input"
    and "i < T_output"
  shows "length s' = length s \<and> length (s' ! i) = length (s ! i) \<and>
         (\<forall>j<T_input. s' ! i ! j = (if c \<and> i < j then Masked else s ! i ! j))"
proof (cases c)
  case False
  then show ?thesis using assms by (simp add: causal_fill_def)
next
  case True
  define cm where "cm = map (map (\<lambda>x. x = 0)) (slice_mask (tril_ones max_len) T_output T_input)"
  have mf: "masked_fill s cm = Inr s'"
    using assms(1,2,3) True by (simp add: causal_fill_def cm_def)
  from assms(4) True have le: "T_output \<le> max_len" "T_input \<le> max_len" by simp_all
  have lcm: "length cm = length s"
    using le assms(5) by (simp add: cm_def slice_mask_def tril_ones_nth)
  have i': "i < max_len" using assms(7) le by simp
  have cmi: "cm ! i = map (\<lambda>x. x = 0) (take T_input (tril_ones max_len ! i))"
    using assms(7) le by (simp add: cm_def slice_mask_def tril_ones_nth)
  have lcmi: "length (cm ! i) = length (s ! i)"
    using le i' assms(6) by (simp add: cmi tril_ones_nth)
  have cmij: "cm ! i ! j = (i < j)" if "j < T_input" for j
    using that le i' by (auto simp: cmi tril_ones_nth)
  from masked_fill_Inr [OF mf] assms(5,7)
  have a: "length s' = length s" and b: "length (s' ! i) = length (s ! i)"
    and c: "\<forall>j<length (s ! i). s' ! i ! j =
           (if cm ! (if length cm = length s then i else 0)
                 ! (if length (cm ! (if length cm = length s then i else 0)) = length (s ! i) then j else 0)
            then Masked else s ! i ! j)"
    by blast+
  show ?thesis using a b c lcm lcmi cmij assms(6) True by simp
qed

lemma causal_fill_keeps_masked:
  assumes "causal_fill m T_output T_input s = Inr s'" and "i < length s"
    and "\<forall>j<length (s ! i). s ! i ! j = Masked"
  shows "length s' = length s \<and> length (s' ! i) = length (s ! i) \<and>
         (\<forall>j<length (s ! i). s' ! i ! j = Masked)"
proof (cases "mha_causal m")
  case False
  then show ?thesis using assms by (simp add: causal_fill_def)
next
  case True
  then obtain cm where
    mf: "masked_fill s (map (map (\<lambda>x. x = 0)) (slice_mask cm T_output T_input)) = Inr s'"
    using assms(1) by (auto simp: causal_fill_def split: option.splits)
  from masked_fill_Inr [OF mf] assms(2,3) show ?thesis by simp
qed

lemma head_weights_row:
  assumes H: "head_weights m T_output T_input pad qh kh = Inr wh"
    and m: "mha_d_k m = dk" "mha_causal m = c"
           "mha_causal_mask m = (if c then Some (tril_ones max_len) else None)"
    and dk: "0 < dk"
    and lq: "length qh = T_output" and lk: "length kh = T_input"
    and finq: "\<exists>r. qh ! i = map Fin r" and fink: "\<forall>j<T_input. \<exists>r. kh ! j = map Fin r"
    and len: "c \<Longrightarrow> T_output \<le> max_len \<and> T_input \<le> max_len"
    and padlen: "\<And>r. pad = Some r \<Longrightarrow> length r = T_input"
    and i: "i < T_output"
  shows "length wh = T_output \<and>
         (\<exists>row. wh ! i = softmax_row row \<and> length row = T_input \<and>
            (\<forall>j<T_input.
               if (case pad of None \<Rightarrow> False | Some r \<Rightarrow> r ! j = 0) \<or> (c \<and> i < j)
               then row ! j = Masked else (\<exists>x. row ! j = Score (Fin x))))"
proof -
  define s0 where "s0 = attn_scores dk qh kh"
  from H m(1) obtain s1 s2 where s1: "pad_fill pad s0 = Inr s1"
    and s2: "causal_fill m T_output T_input s1 = Inr s2"
    and wh: "wh = map softmax_row s2"
    by (auto simp: head_weights_def bind_result_eq_Inr s0_def)
  have l0: "length s0 = T_output" and l0i: "length (s0 ! i) = T_input"
    using i lq lk by (simp_all add: s0_def attn_scores_nth)
  have e0: "\<exists>x. s0 ! i ! j = Score (Fin x)" if j: "j < T_input" for j
  proof -
    from finq obtain a where a: "qh ! i = map Fin a" by blast
    from fink j obtain b where b: "kh ! j = map Fin b" by blast
    have "sqrt (real dk) \<noteq> 0" using dk by simp
    then show ?thesis
      using i j lq lk by (simp add: s0_def attn_scores_nth a b dot_Fin)
  qed
  from pad_fill_Inr [OF s1, of i] padlen i l0 l0i
  have l1: "length s1 = T_output" and l1i: "length (s1 ! i) = T_input"
    and e1: "\<forall>j<T_input. s1 ! i ! j =
            (if (case pad of None \<Rightarrow> False | Some r \<Rightarrow> r ! j = 0) then Masked else s0 ! i ! j)"
    by simp_all
  from causal_fill_Inr [OF s2 m(2) m(3) len l1 l1i i]
  have l2: "length s2 = T_output" and l2i: "length (s2 ! i) = T_input"
    and e2: "\<forall>j<T_input. s2 ! i ! j = (if c \<and> i < j then Masked else s1 ! i ! j)"
    using l1 l1i by simp_all
  have "wh ! i = softmax_row (s2 ! i)" using wh i l2 by simp
  moreover have "\<forall>j<T_input.
               if (case pad of None \<Rightarrow> False | Some r \<Rightarrow> r ! j = 0) \<or> (c \<and> i < j)
               then s2 ! i ! j = Masked else (\<exists>x. s2 ! i ! j = Score (Fin x))"
    using e0 e1 e2 by simp
  ultimately show ?thesis using wh l2 l2i by auto
qed

lemma head_weights_masked_row:
  assumes H: "head_weights m T_output T_input pad qh kh = Inr wh"
    and m: "mha_causal m = c" "mha_causal_mask m = (if c then Some (tril_ones max_len) else None)"
    and lq: "length qh = T_output" and lk: "length kh = T_input"
    and len: "c \<Longrightarrow> T_output \<le> max_len \<and> T_input \<le> max_len"
    and padlen: "\<And>r. pad = Some r \<Longrightarrow> length r = T_input"
    and i: "i < T_output"
    and closed: "\<forall>j<T_input. (case pad of None \<Rightarrow> False | Some r \<Rightarrow> r ! j = 0) \<or> (c \<and> i < j)"
  shows "length wh = T_output \<and> length (wh ! i) = T_input \<and> (\<forall>j<T_input. wh ! i ! j = NaN)"
proof -
  define s0 where "s0 = attn_scores (mha_d_k m) qh kh"
  from H obtain s1 s2 where s1: "pad_fill pad s0 = Inr s1"
    and s2: "causal_fill m T_output T_input s1 = Inr s2"
    and wh: "wh = map softmax_row s2"
    by (auto simp: head_weights_def bind_result_eq_Inr s0_def)
  have l0: "length s0 = T_output" and l0i: "length (s0 ! i) = T_input"
    using i lq lk by (simp_all add: s0_def attn_scores_nth)
  from pad_fill_Inr [OF s1, of i] padlen i l0 l0i
  have l1: "length s1 = T_output" and l1i: "length (s1 ! i) = T_input"
    and e1: "\<forall>j<T_input. s1 ! i ! j =
            (if (case pad of None \<Rightarrow> False | Some r \<Rightarrow> r ! j = 0) then Masked else s0 ! i ! j)"
    by simp_all
  from causal_fill_Inr [OF s2 m(1) m(2) len l1 l1i i]
  have l2: "length s2 = T_output" and l2i: "length (s2 ! i) = T_input"
    and e2: "\<forall>j<T_input. s2 ! i ! j = (if c \<and> i < j then Masked else s1 ! i ! j)"
    using l1 l1i by simp_all
  have all: "\<forall>j<length (s2 ! i). s2 ! i ! j = Masked"
    using e1 e2 closed l2i by auto
  have "wh ! i = softmax_row (s2 ! i)" using wh i l2 by simp
  then show ?thesis using softmax_row_all_masked [OF all] wh l2 l2i by simp
qed

lemma pad_rows_Inr:
  assumes "pad_rows N pad_mask = Inr pads"
  shows "length pads = N \<and>
         (\<forall>n<N. pads ! n =
            (case pad_mask of None \<Rightarrow> None
             | Some pm \<Rightarrow> Some (pm ! (if length pm = N then n else 0))))"
proof (cases pad_mask)
  case None
  then show ?thesis using assms by (auto simp: pad_rows_def)
next
  case (Some pm)
  then obtain rows where r: "expand N pm = Inr rows" and p: "pads = map Some rows"
    using assms by (auto simp: pad_rows_def bind_result_eq_Inr)
  from expand_Inr [OF r] show ?thesis using Some p by simp
qed

lemma MultiHeadAttention_init_simps [simp]:
  "mha_d_k (MultiHeadAttention_init dk d_model nh max_len c pk pq pv pfc) = dk"
  "mha_n_heads (MultiHeadAttention_init dk d_model nh max_len c pk pq pv pfc) = nh"
  "mha_causal (MultiHeadAttention_init dk d_model nh max_len c pk pq pv pfc) = c"
  "mha_causal_mask (MultiHeadAttention_init dk d_model nh max_len c pk pq pv pfc) =
     (if c then Some (tril_ones max_len) else None)"
  by (simp_all add: MultiHeadAttention_init_def)

lemma attn_weights_batch:
  assumes "attn_weights m q k pad_mask = Inr w" and "n < length q"
  shows "length k = length q \<and> length w = length q \<and>
         (\<exists>qn kn. attn_weights1 m
              (case pad_mask of None \<Rightarrow> None
               | Some pm \<Rightarrow> Some (pm ! (if length pm = length q then n else 0))) qn kn
              = Inr (w ! n)
            \<and> length qn = length (q ! n) \<and> length kn = length (k ! n))"
proof -
  from assms(1) obtain q' k' pads where
    Q: "Linear_forward3 (mha_query m) q = Inr q'"
    and K: "Linear_forward3 (mha_key m) k = Inr k'"
    and lk: "length k' = length q'"
    and P: "pad_rows (length q') pad_mask = Inr pads"
    and T: "traverse (\<lambda>(pad, qn, kn). attn_weights1 m pad qn kn) (zip pads (zip q' k')) = Inr w"
    unfolding attn_weights_def by (auto simp: bind_result_eq_Inr split: if_splits)
  from Linear_forward3_shape [OF Q] have lq: "length q' = length q"
    and qn: "length (q' ! n) = length (q ! n)" using assms(2) by simp_all
  from Linear_forward3_shape [OF K] lk lq have lkq: "length k = length q"
    and kn: "length (k' ! n) = length (k ! n)" using assms(2) by simp_all
  from pad_rows_Inr [OF P [unfolded lq]] assms(2)
  have lp: "length pads = length q"
    and pn: "pads ! n =
       (case pad_mask of None \<Rightarrow> None | Some pm \<Rightarrow> Some (pm ! (if length pm = length q then n else 0)))"
    by simp_all
  have lz: "length (zip pads (zip q' k')) = length q" using lp lk lq by simp
  have lw: "length w = length q" using traverse_Inr_length [OF T] lz by simp
  from traverse_Inr_nth [OF T, of n] lz assms(2) lp lk lq
  have "attn_weights1 m (pads ! n) (q' ! n) (k' ! n) = Inr (w ! n)" by simp
  then show ?thesis using lkq lw qn kn unfolding pn by blast
qed

lemma attn_weights1_heads:
  assumes "attn_weights1 m pad qn kn = Inr wn" and "h < mha_n_heads m"
  shows "length wn = mha_n_heads m \<and>
         (\<exists>qh kh. head_weights m (length qn) (length kn) pad qh kh = Inr (wn ! h)
            \<and> length qh = length qn \<and> length kh = length kn)"
proof -
  from assms(1) obtain qs ks where
    qs: "split_heads (mha_n_heads m) (mha_d_k m) qn = Inr qs"
    and ks: "split_heads (mha_n_heads m) (mha_d_k m) kn = Inr ks"
    and H: "traverse (\<lambda>(qh, kh). head_weights m (length qn) (length kn) pad qh kh) (zip qs ks)
              = Inr wn"
    unfolding attn_weights1_def by (auto simp: bind_result_eq_Inr)
  note qsf = split_heads_Inr [OF qs]
  note ksf = split_heads_Inr [OF ks]
  have lz: "length (zip qs ks) = mha_n_heads m" using qsf(1) ksf(1) by simp
  from traverse_Inr_nth [OF H, of h] lz assms(2) qsf(1) ksf(1)
  have "head_weights m (length qn) (length kn) pad (qs ! h) (ks ! h) = Inr (wn ! h)" by simp
  then show ?thesis
    using traverse_Inr_length [OF H] lz qsf(2) [OF assms(2)] ksf(2) [OF assms(2)] by auto
qed

lemma attn_weights_row:
  fixes q k :: "real list list list"
  assumes W: "attn_weights (MultiHeadAttention_init dk d_model nh max_len c pk pq pv pfc)
                (map (map (map Fin)) q) (map (map (map Fin)) k) pad_mask = Inr w"
    and dk: "0 < dk"
    and len: "c \<Longrightarrow> length (q ! n) \<le> max_len \<and> length (k ! n) \<le> max_len"
    and pad: "\<And>pm. pad_mask = Some pm \<Longrightarrow> length pm = length q \<and> length (pm ! n) = length (k ! n)"
    and n: "n < length q" and h: "h < nh" and i: "i < length (q ! n)"
  shows "length k = length q \<and> length w = length q \<and> length (w ! n) = nh \<and>
         length (w ! n ! h) = length (q ! n) \<and>
         (\<exists>row. w ! n ! h ! i = softmax_row row \<and> length row = length (k ! n) \<and>
            (\<forall>j<length (k ! n).
               if masked_position c pad_mask n i j
               then row ! j = Masked else (\<exists>x. row ! j = Score (Fin x))))"
proof -
  define m where "m = MultiHeadAttention_init dk d_model nh max_len c pk pq pv pfc"
  from W obtain q' k' pads where
    Q: "Linear_forward3 (mha_query m) (map (map (map Fin)) q) = Inr q'"
    and K: "Linear_forward3 (mha_key m) (map (map (map Fin)) k) = Inr k'"
    and lk: "length k' = length q'"
    and P: "pad_rows (length q') pad_mask = Inr pads"
    and T: "traverse (\<lambda>(pad, qn, kn). attn_weights1 m pad qn kn) (zip pads (zip q' k')) = Inr w"
    unfolding m_def [symmetric] attn_weights_def
    by (auto simp: bind_result_eq_Inr split: if_splits)
  note Qf = Linear_forward3_Fin [OF Q]
  note Kf = Linear_forward3_Fin [OF K]
  have lkq: "length k = length q" using lk Qf(1) Kf(1) by simp
  have nk: "n < length k" using n lkq by simp
  from pad_rows_Inr [OF P [unfolded Qf(1)]] n
  have lp: "length pads = length q"
    and pn: "pads ! n =
       (case pad_mask of None \<Rightarrow> None | Some pm \<Rightarrow> Some (pm ! (if length pm = length q then n else 0)))"
    by simp_all
  have lz: "length (zip pads (zip q' k')) = length q"
    using lp lk Qf(1) by simp
  have lw: "length w = length q" using traverse_Inr_length [OF T] lz by simp
  from traverse_Inr_nth [OF T, of n] lz n lp lk Qf(1)
  have A: "attn_weights1 m (pads ! n) (q' ! n) (k' ! n) = Inr (w ! n)" by simp
  then obtain qs ks where
    qs: "split_heads nh dk (q' ! n) = Inr qs"
    and ks: "split_heads nh dk (k' ! n) = Inr ks"
    and H: "traverse (\<lambda>(qh, kh). head_weights m (length (q' ! n)) (length (k' ! n)) (pads ! n) qh kh)
              (zip qs ks) = Inr (w ! n)"
    unfolding attn_weights1_def by (auto simp: bind_result_eq_Inr m_def)
  note qsf = split_heads_Inr [OF qs]
  note ksf = split_heads_Inr [OF ks]
  have lzh: "length (zip qs ks) = nh" using qsf(1) ksf(1) by simp
  have lwn: "length (w ! n) = nh" using traverse_Inr_length [OF H] lzh by simp
  from traverse_Inr_nth [OF H, of h] lzh h qsf(1) ksf(1)
  have HW: "head_weights m (length (q' ! n)) (length (k' ! n)) (pads ! n) (qs ! h) (ks ! h)
              = Inr (w ! n ! h)" by simp
  have Tq: "length (q' ! n) = length (q ! n)" using Qf(2) n by simp
  have Tk: "length (k' ! n) = length (k ! n)" using Kf(2) nk by simp
  have finq: "\<exists>r. qs ! h ! i = map Fin r"
  proof -
    from Qf(3) [OF n i] obtain r where "q' ! n ! i = map Fin r" by blast
    then have "qs ! h ! i = map Fin (take dk (drop (h * dk) r))"
      using qsf(3) [OF h, of i] i Tq by (simp add: take_map drop_map)
    then show ?thesis by blast
  qed
  have fink: "\<forall>j<length (k' ! n). \<exists>r. ks ! h ! j = map Fin r"
  proof (intro allI impI)
    fix j assume j: "j < length (k' ! n)"
    then have "j < length (k ! n)" using Tk by simp
    from Kf(3) [OF nk this] obtain r where "k' ! n ! j = map Fin r" by blast
    then have "ks ! h ! j = map Fin (take dk (drop (h * dk) r))"
      using ksf(3) [OF h, of j] j by (simp add: take_map drop_map)
    then show "\<exists>r. ks ! h ! j = map Fin r" by blast
  qed
  have padlen: "\<And>r. pads ! n = Some r \<Longrightarrow> length r = length (k' ! n)"
    using pn pad Tk by (auto split: option.splits)
  have len': "c \<Longrightarrow> length (q' ! n) \<le> max_len \<and> length (k' ! n) \<le> max_len"
    using len Tq Tk by simp
  have i': "i < length (q' ! n)" using i Tq by simp
  have mk: "mha_d_k m = dk" "mha_causal m = c"
    "mha_causal_mask m = (if c then Some (tril_ones max_len) else None)"
    by (simp_all add: m_def)
  from head_weights_row [OF HW mk dk _ _ finq fink len' padlen i'] qsf(2) [OF h] ksf(2) [OF h]
  have R: "length (w ! n ! h) = length (q' ! n) \<and>
         (\<exists>row. w ! n ! h ! i = softmax_row row \<and> length row = length (k' ! n) \<and>
            (\<forall>j<length (k' ! n).
               if (case pads ! n of None \<Rightarrow> False | Some r \<Rightarrow> r ! j = 0) \<or> (c \<and> i < j)
               then row ! j = Masked else (\<exists>x. row ! j = Score (Fin x))))"
    by simp
  have mp: "((case pads ! n of None \<Rightarrow> False | Some r \<Rightarrow> r ! j = 0) \<or> (c \<and> i < j))
      = masked_position c pad_mask n i j" for j
    using pn pad by (auto simp: masked_position_def split: option.splits)
  show ?thesis using R lkq lw lwn Tq Tk unfolding mp by simp
qed

text \<open>
  A causal call on a sequence longer than \<open>max_len\<close> raises, except for \<open>max_len = 1\<close>,
  where the mask of shape (1, 1) is expanded.
\<close>

lemma causal_call_within_max_len:
  assumes W: "attn_weights (MultiHeadAttention_init dk d_model nh max_len True pk pq pv pfc)
                q k pad_mask = Inr w"
    and n: "n < length q" and nh: "0 < nh" and Tq: "0 < length (q ! n)"
  shows "(length (q ! n) \<le> max_len \<or> max_len = 1) \<and> (length (k ! n) \<le> max_len \<or> max_len = 1)"
proof -
  define m where "m = MultiHeadAttention_init dk d_model nh max_len True pk pq pv pfc"
  have mk: "mha_n_heads m = nh" "mha_causal m" "mha_causal_mask m = Some (tril_ones max_len)"
    by (simp_all add: m_def)
  from attn_weights_batch [OF W [folded m_def] n] obtain pad qn kn where
    W1: "attn_weights1 m pad qn kn = Inr (w ! n)"
    and lqn: "length qn = length (q ! n)" and lkn: "length kn = length (k ! n)"
    by blast
  from attn_weights1_heads [OF W1, of 0] nh mk(1) obtain qh kh where
    H: "head_weights m (length qn) (length kn) pad qh kh = Inr (w ! n ! 0)"
    and lq: "length qh = length qn" and lk: "length kh = length kn"
    by auto
  define s0 where "s0 = attn_scores (mha_d_k m) qh kh"
  from H obtain s1 s2 where s1: "pad_fill pad s0 = Inr s1"
    and s2: "causal_fill m (length qn) (length kn) s1 = Inr s2"
    by (auto simp: head_weights_def bind_result_eq_Inr s0_def)
  have l0: "length s0 = length qn" "length (s0 ! 0) = length kn"
    using lq lk lqn Tq by (simp_all add: s0_def attn_scores_nth)
  have l1: "length s1 = length qn \<and> length (s1 ! 0) = length kn"
  proof (cases pad)
    case None
    then show ?thesis using s1 l0 by (simp add: pad_fill_def)
  next
    case (Some r)
    then have "masked_fill s0 [map (\<lambda>x. x = 0) r] = Inr s1" using s1 by (simp add: pad_fill_def)
    from masked_fill_Inr [OF this] l0 lqn Tq show ?thesis by simp
  qed
  define M where "M = map (map (\<lambda>x. x = 0)) (slice_mask (tril_ones max_len) (length qn) (length kn))"
  from s2 mk have mf: "masked_fill s1 M = Inr s2" by (simp add: causal_fill_def M_def)
  have i0: "0 < length s1" using l1 lqn Tq by simp
  from masked_fill_Inr_shape [OF mf i0] l1
  have a: "length M = length qn \<or> length M = 1"
    and b: "length (M ! 0) = length kn \<or> length (M ! 0) = 1"
    by (simp_all split: if_splits)
  have lM: "length M = min (length qn) max_len"
    by (simp add: M_def slice_mask_def tril_ones_nth)
  have rows: "length qn \<le> max_len \<or> max_len = 1" using a lM by auto
  have pos: "0 < max_len"
  proof (rule ccontr)
    assume "\<not> 0 < max_len"
    then have "length M = 0" using lM by simp
    then show False using a lqn Tq by simp
  qed
  have "M ! 0 = map (\<lambda>x. x = 0) (take (length kn) (tril_ones max_len ! 0))"
    using pos lqn Tq by (simp add: M_def slice_mask_def tril_ones_nth)
  then have "length (M ! 0) = min (length kn) max_len" using pos by (simp add: tril_ones_nth)
  with b have "length kn \<le> max_len \<or> max_len = 1" by auto
  with rows lqn lkn show ?thesis by simp
qed

lemma attend1_NaN_row:
  assumes A: "attend1 m T_output T_input wn vn = Inr on"
    and i: "i < T_output" and Tk: "0 < T_input"
    and nh: "0 < mha_n_heads m" and dk: "0 < mha_d_k m"
    and lw: "length wn = mha_n_heads m"
    and rows: "\<forall>h<mha_n_heads m. length (wn ! h) = T_output \<and> length (wn ! h ! i) = T_input
                 \<and> (\<forall>j<T_input. wn ! h ! i ! j = NaN)"
    and fc: "[] \<notin> set (weight (mha_fc m))"
  shows "length on = T_output
         \<and> length (on ! i) = min (length (weight (mha_fc m))) (length (bias (mha_fc m)))
         \<and> (\<forall>c<length (on ! i). on ! i ! c = NaN)"
proof -
  define As where "As = map2 (\<lambda>w vh. weighted_values w vh (mha_d_k m)) wn"
  from A obtain vs where lv: "length vn = T_input"
    and vs: "split_heads (mha_n_heads m) (mha_d_k m) vn = Inr vs"
    and tr: "traverse (Linear_forward (mha_fc m)) (merge_heads (As vs) T_output) = Inr on"
    by (auto simp: attend1_def bind_result_eq_Inr As_def split: if_splits)
  note vsf = split_heads_Inr [OF vs]
  have lon: "length on = T_output"
    using traverse_Inr_length [OF tr] by (simp add: merge_heads_def)
  define a where "a = concat (map (\<lambda>Ah. Ah ! i) (As vs))"
  have mi: "merge_heads (As vs) T_output ! i = a"
    using i by (simp add: merge_heads_def a_def)
  from traverse_Inr_nth [OF tr, of i] i mi
  have L: "Linear_forward (mha_fc m) a = Inr (on ! i)" by (simp add: merge_heads_def)
  have lAs: "length (As vs) = mha_n_heads m" using lw vsf(1) by (simp add: As_def)
  have Ah: "As vs ! h ! i = replicate (mha_d_k m) NaN" if h: "h < mha_n_heads m" for h
  proof -
    from rows h have r: "length (wn ! h) = T_output" "length (wn ! h ! i) = T_input"
      "\<forall>j<T_input. wn ! h ! i ! j = NaN" by simp_all
    have ne: "wn ! h ! i \<noteq> []" using r(2) Tk by auto
    have hdw: "hd (wn ! h ! i) = NaN" using r(2,3) Tk ne by (simp add: hd_conv_nth)
    have lvh: "length (vs ! h) = T_input" using vsf(2) [OF h] lv by simp
    have d: "dot (wn ! h ! i) (map (\<lambda>vj. vj ! c) (vs ! h)) = NaN" for c
      using ne hdw lvh Tk by (intro dot_NaN_left) auto
    have "As vs ! h ! i = map (\<lambda>c. dot (wn ! h ! i) (map (\<lambda>vj. vj ! c) (vs ! h))) [0..<mha_d_k m]"
      using h lw vsf(1) r(1) i by (simp add: As_def weighted_values_def)
    also have "\<dots> = replicate (mha_d_k m) NaN"
      by (simp add: d map_replicate_const)
    finally show ?thesis .
  qed
  have a_all: "\<forall>x\<in>set a. x = NaN"
  proof
    fix x assume "x \<in> set a"
    then obtain B where B: "B \<in> set (As vs)" "x \<in> set (B ! i)" by (auto simp: a_def)
    then obtain h where "h < mha_n_heads m" "B = As vs ! h"
      using lAs by (metis in_set_conv_nth)
    then show "x = NaN" using Ah B by simp
  qed
  have "As vs ! 0 \<in> set (As vs)" using lAs nh by (metis nth_mem)
  then have "set (As vs ! 0 ! i) \<subseteq> set a" by (auto simp: a_def)
  moreover have "As vs ! 0 ! i \<noteq> []" using Ah [OF nh] dk by simp
  ultimately have ane: "a \<noteq> []" by auto
  then have hda: "hd a = NaN" using a_all by (cases a) simp_all
  from Linear_forward_NaN [OF L ane hda fc] lon show ?thesis by simp
qed

lemma forward_batch:
  assumes "MultiHeadAttention_forward m q k v pad_mask = Inr out" and "n < length q"
  shows "\<exists>w vn. attn_weights m q k pad_mask = Inr w \<and> length out = length q
           \<and> attend1 m (length (q ! n)) (length (k ! n)) (w ! n) vn = Inr (out ! n)"
proof -
  from assms(1) obtain v' w where
    V: "Linear_forward3 (mha_value m) v = Inr v'"
    and W: "attn_weights m q k pad_mask = Inr w"
    and lv: "length v' = length q"
    and T: "traverse (\<lambda>(wn, qn, kn, vn). attend1 m (length qn) (length kn) wn vn)
              (zip w (zip q (zip k v'))) = Inr out"
    unfolding MultiHeadAttention_forward_def by (auto simp: bind_result_eq_Inr split: if_splits)
  from attn_weights_batch [OF W assms(2)] have lk: "length k = length q" and lw: "length w = length q"
    by simp_all
  have lz: "length (zip w (zip q (zip k v'))) = length q" using lk lw lv by simp
  from traverse_Inr_nth [OF T, of n] lz assms(2) lk lw lv
  have "attend1 m (length (q ! n)) (length (k ! n)) (w ! n) (v' ! n) = Inr (out ! n)" by simp
  then show ?thesis using W traverse_Inr_length [OF T] lz by auto
qed

lemmas attn_eval = attn_weights_def Linear_forward3_def Linear_forward_def Linear_init_def
  MultiHeadAttention_init_def dot_def split_heads_def attn_scores_def pad_rows_def expand_def
  masked_fill_def pad_fill_def causal_fill_def slice_mask_def tril_ones_def softmax_row_def head_weights_def
  attn_weights1_def Let_def

lemmas forward_eval = attn_eval MultiHeadAttention_forward_def attend1_def weighted_values_def
  merge_heads_def

lemmas block_eval = EncoderBlock_forward_def EncoderBlock_init_def DecoderBlock_forward_def
  DecoderBlock_init_def add_tensor_def add_mat_def add_vec_def

subsection \<open>Calls on inputs of the specified shapes return\<close>

lemma expand_total:
  "length xs = n \<or> length xs = 1 \<Longrightarrow> \<exists>ys. expand n xs = Inr ys \<and> set ys \<subseteq> set xs"
proof (cases "length xs = n")
  case True
  then show ?thesis by (simp add: expand_def)
next
  case False
  assume "length xs = n \<or> length xs = 1"
  with False have "length xs = 1" by simp
  then obtain x where "xs = [x]" by (cases xs) auto
  then show ?thesis using False by (auto simp: expand_def)
qed

lemma masked_fill_total:
  assumes "length m = length s \<or> length m = 1"
    and "\<forall>r\<in>set m. \<forall>srow\<in>set s. length r = length srow"
  shows "\<exists>s'. masked_fill s m = Inr s'"
proof -
  from expand_total [OF assms(1)] obtain rows where
    rows: "expand (length s) m = Inr rows" and sub: "set rows \<subseteq> set m" by blast
  have "\<exists>y. (\<lambda>(srow, mrow).
         bind_result (expand (length srow) mrow) (\<lambda>mr.
           Inr (map2 (\<lambda>x b. if b then Masked else x) srow mr))) p = Inr y"
    if p: "p \<in> set (zip s rows)" for p
  proof -
    obtain srow mrow where e: "p = (srow, mrow)" by (cases p)
    with p have "srow \<in> set s" "mrow \<in> set rows" by (auto dest: set_zip_leftD set_zip_rightD)
    then have "length mrow = length srow" using sub assms(2) by blast
    then show ?thesis by (simp add: e expand_def)
  qed
  from traverse_total [OF this] rows show ?thesis by (simp add: masked_fill_def)
qed

lemma masked_fill_rows:
  assumes "masked_fill s m = Inr s'" and "\<forall>srow\<in>set s. length srow = T"
  shows "length s' = length s \<and> (\<forall>srow\<in>set s'. length srow = T)"
proof -
  note f = masked_fill_Inr [OF assms(1)]
  have "length srow = T" if "srow \<in> set s'" for srow
  proof -
    from that obtain i where i: "i < length s'" "srow = s' ! i" by (metis in_set_conv_nth)
    with f have "length srow = length (s ! i)" "i < length s" by simp_all
    then show ?thesis using assms(2) by simp
  qed
  with f show ?thesis by blast
qed

lemma head_weights_length:
  assumes "head_weights m T_output T_input pad qh kh = Inr wh"
  shows "length wh = length qh"
proof -
  from assms obtain s1 s2 where s1: "pad_fill pad (attn_scores (mha_d_k m) qh kh) = Inr s1"
    and s2: "causal_fill m T_output T_input s1 = Inr s2"
    and wh: "wh = map softmax_row s2"
    by (auto simp: head_weights_def bind_result_eq_Inr)
  have l1: "length s1 = length qh"
  proof (cases pad)
    case None
    then show ?thesis using s1 by (auto simp: pad_fill_def attn_scores_nth)
  next
    case (Some r)
    then have "masked_fill (attn_scores (mha_d_k m) qh kh) [map (\<lambda>x. x = 0) r] = Inr s1"
      using s1 by (simp add: pad_fill_def)
    from masked_fill_Inr [OF this] show ?thesis by (simp add: attn_scores_nth)
  qed
  have "length s2 = length s1"
  proof (cases "mha_causal m")
    case False
    then show ?thesis using s2 by (simp add: causal_fill_def)
  next
    case True
    then obtain cm where
      "masked_fill s1 (map (map (\<lambda>x. x = 0)) (slice_mask cm T_output T_input)) = Inr s2"
      using s2 by (auto simp: causal_fill_def split: option.splits)
    from masked_fill_Inr [OF this] show ?thesis by simp
  qed
  then show ?thesis using l1 wh by simp
qed

lemma head_weights_total:
  assumes m: "mha_causal m = c" "mha_causal_mask m = (if c then Some (tril_ones max_len) else None)"
    and lq: "length qh = T_output" and lk: "length kh = T_input"
    and len: "c \<Longrightarrow> T_output \<le> max_len \<and> T_input \<le> max_len"
    and padlen: "\<And>r. pad = Some r \<Longrightarrow> length r = T_input"
  shows "\<exists>wh. head_weights m T_output T_input pad qh kh = Inr wh"
proof -
  define s0 where "s0 = attn_scores (mha_d_k m) qh kh"
  have l0: "length s0 = T_output" and r0: "\<forall>srow\<in>set s0. length srow = T_input"
    using lq lk by (auto simp: s0_def attn_scores_def)
  have "\<exists>s1. pad_fill pad s0 = Inr s1 \<and> length s1 = T_output \<and> (\<forall>srow\<in>set s1. length srow = T_input)"
  proof (cases pad)
    case None
    then show ?thesis using l0 r0 by (simp add: pad_fill_def)
  next
    case (Some r)
    have "\<exists>s1. masked_fill s0 [map (\<lambda>x. x = 0) r] = Inr s1"
      using r0 padlen [OF Some] by (intro masked_fill_total) simp_all
    then obtain s1 where s1: "masked_fill s0 [map (\<lambda>x. x = 0) r] = Inr s1" by blast
    from masked_fill_rows [OF s1 r0] l0 s1 Some show ?thesis by (simp add: pad_fill_def)
  qed
  then obtain s1 where s1: "pad_fill pad s0 = Inr s1" and l1: "length s1 = T_output"
    and r1: "\<forall>srow\<in>set s1. length srow = T_input" by blast
  have "\<exists>s2. causal_fill m T_output T_input s1 = Inr s2"
  proof (cases c)
    case False
    then show ?thesis using m by (simp add: causal_fill_def)
  next
    case True
    define M where "M = map (map (\<lambda>x. x = 0)) (slice_mask (tril_ones max_len) T_output T_input)"
    from len True have le: "T_output \<le> max_len" "T_input \<le> max_len" by simp_all
    have lM: "length M = length s1" using le l1 by (simp add: M_def slice_mask_def tril_ones_nth)
    have rM: "\<forall>r\<in>set M. length r = T_input"
    proof
      fix r assume "r \<in> set M"
      then obtain a where a: "a \<in> set (take T_output (tril_ones max_len))"
        and r: "r = map (\<lambda>x. x = 0) (take T_input a)"
        by (auto simp: M_def slice_mask_def)
      from a have "a \<in> set (tril_ones max_len)" by (rule in_set_takeD)
      then have "length a = max_len" by (auto simp: tril_ones_def)
      then show "length r = T_input" using r le by simp
    qed
    have "\<exists>s2. masked_fill s1 M = Inr s2"
      using lM rM r1 by (intro masked_fill_total) simp_all
    then show ?thesis using True m by (simp add: causal_fill_def M_def)
  qed
  then obtain s2 where "causal_fill m T_output T_input s1 = Inr s2" by blast
  then show ?thesis using s1 by (simp add: head_weights_def s0_def)
qed

lemma split_heads_total:
  assumes "\<forall>r\<in>set x. length r = h * dk"
  shows "\<exists>ys. split_heads h dk x = Inr ys \<and> length ys = h \<and> (\<forall>y\<in>set ys. length y = length x)"
  using assms by (auto simp: split_heads_def list_all_iff)

lemma attn_weights1_total:
  assumes m: "mha_causal m = c" "mha_causal_mask m = (if c then Some (tril_ones max_len) else None)"
    and rq: "\<forall>r\<in>set qn. length r = mha_n_heads m * mha_d_k m"
    and rk: "\<forall>r\<in>set kn. length r = mha_n_heads m * mha_d_k m"
    and len: "c \<Longrightarrow> length qn \<le> max_len \<and> length kn \<le> max_len"
    and padlen: "\<And>r. pad = Some r \<Longrightarrow> length r = length kn"
  shows "\<exists>wn. attn_weights1 m pad qn kn = Inr wn"
proof -
  from split_heads_total [OF rq] obtain qs where
    qs: "split_heads (mha_n_heads m) (mha_d_k m) qn = Inr qs"
    and lqs: "\<forall>y\<in>set qs. length y = length qn" by blast
  from split_heads_total [OF rk] obtain ks where
    ks: "split_heads (mha_n_heads m) (mha_d_k m) kn = Inr ks"
    and lks: "\<forall>y\<in>set ks. length y = length kn" by blast
  have "\<exists>y. (\<lambda>(qh, kh). head_weights m (length qn) (length kn) pad qh kh) p = Inr y"
    if p: "p \<in> set (zip qs ks)" for p
  proof -
    obtain qh kh where e: "p = (qh, kh)" by (cases p)
    with p have "qh \<in> set qs" "kh \<in> set ks" by (auto dest: set_zip_leftD set_zip_rightD)
    then have "length qh = length qn" "length kh = length kn" using lqs lks by simp_all
    from head_weights_total [OF m this len padlen] show ?thesis by (simp add: e)
  qed
  from traverse_total [OF this] qs ks show ?thesis by (simp add: attn_weights1_def)
qed

lemma Linear_forward3_total:
  assumes "has_shape N T d x" and "in_features L = d"
  shows "\<exists>y. Linear_forward3 L x = Inr y
           \<and> has_shape N T (min (length (weight L)) (length (bias L))) y"
proof -
  define g where "g = (\<lambda>r. map2 (\<lambda>w b. fl_add (dot (map Fin w) r) (Fin b)) (weight L) (bias L))"
  have row: "traverse (Linear_forward L) m = Inr (map g m)" if "m \<in> set x" for m
  proof (rule traverse_map)
    fix r assume "r \<in> set m"
    then have "length r = d" using assms(1) that by (auto simp: has_shape_def)
    then show "Linear_forward L r = Inr (g r)" using assms(2) by (simp add: Linear_forward_def g_def)
  qed
  have "traverse (traverse (Linear_forward L)) x = Inr (map (map g) x)"
    by (rule traverse_map) (rule row)
  moreover have "has_shape N T (min (length (weight L)) (length (bias L))) (map (map g) x)"
    using assms(1) by (auto simp: has_shape_def g_def)
  ultimately show ?thesis by (auto simp: Linear_forward3_def)
qed

lemma pad_rows_total:
  assumes "mask_shape N T pad_mask"
  shows "\<exists>pads. pad_rows N pad_mask = Inr pads \<and> length pads = N
           \<and> (\<forall>pad\<in>set pads. \<forall>r. pad = Some r \<longrightarrow> length r = T)"
proof (cases pad_mask)
  case None
  then show ?thesis by (simp add: pad_rows_def)
next
  case (Some pm)
  with assms have "length pm = N" "\<forall>r\<in>set pm. length r = T" by (simp_all add: mask_shape_def)
  then show ?thesis using Some by (auto simp: pad_rows_def expand_def)
qed

lemma attn_weights_total:
  assumes m: "mha_causal m = c" "mha_causal_mask m = (if c then Some (tril_ones max_len) else None)"
    and pq: "in_features (mha_query m) = d"
            "min (length (weight (mha_query m))) (length (bias (mha_query m)))
               = mha_n_heads m * mha_d_k m"
    and pk: "in_features (mha_key m) = d"
            "min (length (weight (mha_key m))) (length (bias (mha_key m)))
               = mha_n_heads m * mha_d_k m"
    and hq: "has_shape N T_output d q" and hk: "has_shape N T_input d k"
    and hm: "mask_shape N T_input pad_mask"
    and len: "c \<Longrightarrow> T_output \<le> max_len \<and> T_input \<le> max_len"
  shows "\<exists>w. attn_weights m q k pad_mask = Inr w"
proof -
  from Linear_forward3_total [OF hq pq(1)] pq(2) obtain q' where
    Q: "Linear_forward3 (mha_query m) q = Inr q'"
    and sq: "has_shape N T_output (mha_n_heads m * mha_d_k m) q'" by auto
  from Linear_forward3_total [OF hk pk(1)] pk(2) obtain k' where
    K: "Linear_forward3 (mha_key m) k = Inr k'"
    and sk: "has_shape N T_input (mha_n_heads m * mha_d_k m) k'" by auto
  have lk: "length k' = length q'" and lq: "length q' = N"
    using sq sk by (simp_all add: has_shape_def)
  from pad_rows_total [OF hm] obtain pads where
    P: "pad_rows N pad_mask = Inr pads"
    and pl: "\<forall>pad\<in>set pads. \<forall>r. pad = Some r \<longrightarrow> length r = T_input" by blast
  have "\<exists>y. (\<lambda>(pad, qn, kn). attn_weights1 m pad qn kn) p = Inr y"
    if p: "p \<in> set (zip pads (zip q' k'))" for p
  proof -
    obtain pad qn kn where e: "p = (pad, qn, kn)" by (cases p)
    with p have a: "pad \<in> set pads" and "(qn, kn) \<in> set (zip q' k')"
      by (auto dest: set_zip_leftD set_zip_rightD)
    then have b: "qn \<in> set q'" "kn \<in> set k'" by (auto dest: set_zip_leftD set_zip_rightD)
    from b sq sk have lqn: "length qn = T_output" and lkn: "length kn = T_input"
      and rq: "\<forall>r\<in>set qn. length r = mha_n_heads m * mha_d_k m"
      and rk: "\<forall>r\<in>set kn. length r = mha_n_heads m * mha_d_k m"
      by (auto simp: has_shape_def)
    have len': "c \<Longrightarrow> length qn \<le> max_len \<and> length kn \<le> max_len"
      using len lqn lkn by simp
    have padlen: "\<And>r. pad = Some r \<Longrightarrow> length r = length kn"
      using pl a lkn by simp
    from attn_weights1_total [OF m rq rk len' padlen] show ?thesis by (simp add: e)
  qed
  from traverse_total [OF this] Q K P lk lq show ?thesis by (simp add: attn_weights_def)
qed

lemma sum_list_const_nat:
  "\<forall>x\<in>set xs. f x = (c::nat) \<Longrightarrow> sum_list (map f xs) = length xs * c"
  by (induction xs) simp_all

lemma attend1_total:
  assumes lv: "length vn = T_input"
    and rv: "\<forall>r\<in>set vn. length r = mha_n_heads m * mha_d_k m"
    and lw: "length wn = mha_n_heads m"
    and rw: "\<forall>w\<in>set wn. length w = T_output"
    and fc: "in_features (mha_fc m) = mha_n_heads m * mha_d_k m"
  shows "\<exists>on. attend1 m T_output T_input wn vn = Inr on"
proof -
  from split_heads_total [OF rv] obtain vs where
    vs: "split_heads (mha_n_heads m) (mha_d_k m) vn = Inr vs"
    and lvs: "length vs = mha_n_heads m" by blast
  define A where "A = map2 (\<lambda>w vh. weighted_values w vh (mha_d_k m)) wn vs"
  have lA: "length A = mha_n_heads m" using lw lvs by (simp add: A_def)
  have "\<exists>y. Linear_forward (mha_fc m) r = Inr y" if r: "r \<in> set (merge_heads A T_output)" for r
  proof -
    from r obtain t where t: "t < T_output" and e: "r = concat (map (\<lambda>Ah. Ah ! t) A)"
      by (auto simp: merge_heads_def)
    have each: "length (Ah ! t) = mha_d_k m" if "Ah \<in> set A" for Ah
    proof -
      from that obtain w vh where "(w, vh) \<in> set (zip wn vs)"
        and Ah: "Ah = weighted_values w vh (mha_d_k m)" by (auto simp: A_def)
      then have "w \<in> set wn" by (auto dest: set_zip_leftD)
      then have "t < length w" using rw t by simp
      then show ?thesis by (simp add: Ah weighted_values_def)
    qed
    have "sum_list (map (\<lambda>Ah. length (Ah ! t)) A) = length A * mha_d_k m"
      by (rule sum_list_const_nat) (simp add: each)
    then have "length r = length A * mha_d_k m"
      by (simp add: e length_concat comp_def)
    then show ?thesis using fc lA by (simp add: Linear_forward_def)
  qed
  from traverse_total [OF this] vs lv show ?thesis by (simp add: attend1_def A_def)
qed

lemma attn_weights_shape:
  assumes W: "attn_weights m q k pad_mask = Inr w" and nh: "0 < mha_n_heads m"
    and wn: "wn \<in> set w" and hq: "has_shape N T_output d q"
  shows "length wn = mha_n_heads m \<and> (\<forall>wh\<in>set wn. length wh = T_output)"
proof -
  from wn obtain n where n: "n < length w" and e: "wn = w ! n" by (metis in_set_conv_nth)
  have lw: "length w = length q"
  proof (cases q)
    case Nil
    then show ?thesis using W
      by (auto simp: attn_weights_def Linear_forward3_def bind_result_eq_Inr pad_rows_def expand_def
          split: if_splits option.splits list.splits)
  next
    case (Cons a list)
    then have "0 < length q" by simp
    from attn_weights_batch [OF W this] show ?thesis by simp
  qed
  then have nq: "n < length q" using n by simp
  from attn_weights_batch [OF W nq] obtain pad qn kn where
    W1: "attn_weights1 m pad qn kn = Inr (w ! n)" and lqn: "length qn = length (q ! n)"
    by blast
  have Tq: "length (q ! n) = T_output" using hq nq by (auto simp: has_shape_def)
  from attn_weights1_heads [OF W1 nh] have lwn: "length (w ! n) = mha_n_heads m" by simp
  have "length wh = T_output" if "wh \<in> set (w ! n)" for wh
  proof -
    from that obtain h where h: "h < length (w ! n)" and eh: "wh = w ! n ! h"
      by (metis in_set_conv_nth)
    from attn_weights1_heads [OF W1, of h] h lwn obtain qh kh where
      "head_weights m (length qn) (length kn) pad qh kh = Inr (w ! n ! h)"
      and "length qh = length qn" by auto
    from head_weights_length [OF this(1)] this(2) lqn Tq eh show ?thesis by simp
  qed
  then show ?thesis using lwn e by simp
qed

lemma MultiHeadAttention_forward_total:
  assumes m: "mha_causal m = c" "mha_causal_mask m = (if c then Some (tril_ones max_len) else None)"
    and nh: "0 < mha_n_heads m"
    and pq: "in_features (mha_query m) = d"
            "min (length (weight (mha_query m))) (length (bias (mha_query m)))
               = mha_n_heads m * mha_d_k m"
    and pk: "in_features (mha_key m) = d"
            "min (length (weight (mha_key m))) (length (bias (mha_key m)))
               = mha_n_heads m * mha_d_k m"
    and pv: "in_features (mha_value m) = d"
            "min (length (weight (mha_value m))) (length (bias (mha_value m)))
               = mha_n_heads m * mha_d_k m"
    and fc: "in_features (mha_fc m) = mha_n_heads m * mha_d_k m"
    and hq: "has_shape N T_output d q" and hk: "has_shape N T_input d k"
    and hv: "has_shape N T_input d v"
    and hm: "mask_shape N T_input pad_mask"
    and len: "c \<Longrightarrow> T_output \<le> max_len \<and> T_input \<le> max_len"
  shows "\<exists>out. MultiHeadAttention_forward m q k v pad_mask = Inr out"
proof -
  from Linear_forward3_total [OF hv pv(1)] pv(2) obtain v' where
    V: "Linear_forward3 (mha_value m) v = Inr v'"
    and sv: "has_shape N T_input (mha_n_heads m * mha_d_k m) v'" by auto
  from attn_weights_total [OF m pq pk hq hk hm len] obtain w where
    W: "attn_weights m q k pad_mask = Inr w" by blast
  have lv: "length v' = length q" using sv hq by (simp add: has_shape_def)
  have "\<exists>y. (\<lambda>(wn, qn, kn, vn). attend1 m (length qn) (length kn) wn vn) p = Inr y"
    if p: "p \<in> set (zip w (zip q (zip k v')))" for p
  proof -
    obtain wn qn kn vn where e: "p = (wn, qn, kn, vn)" by (cases p)
    with p have a: "wn \<in> set w" and "(qn, kn, vn) \<in> set (zip q (zip k v'))"
      by (auto dest: set_zip_leftD set_zip_rightD)
    then have b: "qn \<in> set q" and "(kn, vn) \<in> set (zip k v')"
      by (auto dest: set_zip_leftD set_zip_rightD)
    then have c: "kn \<in> set k" "vn \<in> set v'" by (auto dest: set_zip_leftD set_zip_rightD)
    have lqn: "length qn = T_output" using b hq by (simp add: has_shape_def)
    have lkn: "length kn = T_input" using c hk by (simp add: has_shape_def)
    have lvn: "length vn = length kn" using c sv lkn by (simp add: has_shape_def)
    have rv: "\<forall>r\<in>set vn. length r = mha_n_heads m * mha_d_k m"
      using c sv by (simp add: has_shape_def)
    from attn_weights_shape [OF W nh a hq] lqn
    have lw: "length wn = mha_n_heads m" and rw: "\<forall>wh\<in>set wn. length wh = length qn"
      by simp_all
    from attend1_total [OF lvn rv lw rw fc] show ?thesis by (simp add: e)
  qed
  from traverse_total [OF this] V W lv show ?thesis by (simp add: MultiHeadAttention_forward_def)
qed

lemma linear_shape_init:
  assumes "linear_shape n_in n_out p"
  shows "in_features (Linear_init n_in n_out p) = n_in"
    and "min (length (weight (Linear_init n_in n_out p))) (length (bias (Linear_init n_in n_out p)))
           = n_out"
  using assms by (simp_all add: linear_shape_def Linear_init_def)


subsection \<open>Claims on the attention engine\<close>

text \<open>
  The invariant of the attention weights, on every call that returns except a causal
  one whose \<open>max_len\<close> is 1 and whose sequences are longer. For real-valued inputs,
  \<open>d_k \<ge> 1\<close> and a padding mask of the shape (N, T_input): at every query position with
  at least one key position that is not masked, the attention weights sum to 1 over the
  key axis, and the weight is exactly 0 at every key position whose padding-mask entry
  is 0 and, when causal, at every key position later than the query position; for every
  batch element and head.
\<close>

lemma attention_rows_sum_to_one_masked_zero:
  fixes q k :: "real list list list"
  assumes "attn_weights (MultiHeadAttention_init dk d_model nh max_len c pk pq pv pfc)
             (map (map (map Fin)) q) (map (map (map Fin)) k) pad_mask = Inr w"
    and "0 < dk"
    and "c \<longrightarrow> max_len \<noteq> 1 \<or> (length (q ! n) \<le> max_len \<and> length (k ! n) \<le> max_len)"
    and "\<forall>pm. pad_mask = Some pm \<longrightarrow> length pm = length q \<and> length (pm ! n) = length (k ! n)"
    and "n < length q" and "h < nh" and "i < length (q ! n)"
    and "\<exists>j<length (k ! n). \<not> masked_position c pad_mask n i j"
  shows "length (w ! n ! h ! i) = length (k ! n) \<and> fl_sum (w ! n ! h ! i) = Fin 1 \<and>
         (\<forall>j<length (k ! n). masked_position c pad_mask n i j \<longrightarrow> w ! n ! h ! i ! j = Fin 0)"
proof -
  have le: "length (q ! n) \<le> max_len \<and> length (k ! n) \<le> max_len" if c
  proof -
    from that assms(1) have W: "attn_weights
        (MultiHeadAttention_init dk d_model nh max_len True pk pq pv pfc)
        (map (map (map Fin)) q) (map (map (map Fin)) k) pad_mask = Inr w" by simp
    have n': "n < length (map (map (map Fin)) q)" using assms(5) by simp
    have T: "0 < length (map (map (map Fin)) q ! n)" using assms(5,7) by (cases "q ! n") auto
    have nh: "0 < nh" using assms(6) by simp
    from attn_weights_batch [OF W n'] have nk: "n < length k" using assms(5) by simp
    from causal_call_within_max_len [OF W n' nh T] assms(5) nk
    have "(length (q ! n) \<le> max_len \<or> max_len = 1) \<and> (length (k ! n) \<le> max_len \<or> max_len = 1)"
      by simp
    with assms(3) that show ?thesis by blast
  qed
  from attn_weights_row [OF assms(1) assms(2) le _ assms(5) assms(6) assms(7)] assms(4)
  obtain row where r: "w ! n ! h ! i = softmax_row row" and lr: "length row = length (k ! n)"
    and e: "\<forall>j<length (k ! n).
               if masked_position c pad_mask n i j
               then row ! j = Masked else (\<exists>x. row ! j = Score (Fin x))"
    by blast
  have fin: "\<forall>j<length row. row ! j = Masked \<or> (\<exists>x. row ! j = Score (Fin x))"
    using e lr by (metis (full_types))
  from assms(8) obtain j where "j < length (k ! n)" "\<not> masked_position c pad_mask n i j" by blast
  with e lr have op: "\<exists>j<length row. row ! j \<noteq> Masked" by (metis score.distinct(1))
  have m: "\<forall>j<length (k ! n). masked_position c pad_mask n i j \<longrightarrow> row ! j = Masked"
    using e by simp
  from softmax_row_finite [OF fin op] r lr m show ?thesis by simp
qed

lemma attention_rows_sum_to_one_masked_zero_example:
  "\<exists>w. attn_weights
          (MultiHeadAttention_init 1 1 1 2 True ([[0]], [0]) ([[0]], [0]) ([[0]], [0]) ([[0]], [0]))
          (map (map (map Fin)) [[[0], [0]]]) (map (map (map Fin)) [[[0], [0]]]) (Some [[1, 0]]) = Inr w
       \<and> masked_position True (Some [[1, 0]]) 0 1 1
       \<and> \<not> masked_position True (Some [[1, 0]]) 0 1 0
       \<and> fl_sum (w ! 0 ! 0 ! 1) = Fin 1 \<and> w ! 0 ! 0 ! 1 ! 1 = Fin 0"
proof -
  have W: "attn_weights
      (MultiHeadAttention_init 1 1 1 2 True ([[0]], [0]) ([[0]], [0]) ([[0]], [0]) ([[0]], [0]))
      (map (map (map Fin)) [[[0], [0]]]) (map (map (map Fin)) [[[0], [0]]]) (Some [[1, 0]])
      = Inr [[[[Fin 1, Fin 0], [Fin 1, Fin 0]]]]"
    by (simp add: attn_eval eval_nat_numeral)
  have m1: "masked_position True (Some [[1, 0]]) 0 1 1"
    and m0: "\<not> masked_position True (Some [[1, 0]]) 0 1 0"
    by (simp_all add: masked_position_def)
  have ex: "\<exists>j<length ([[[0], [0]]] ! 0 :: real list list). \<not> masked_position True (Some [[1, 0]]) 0 1 j"
    using m0 by (intro exI [of _ 0]) simp
  from attention_rows_sum_to_one_masked_zero [OF W _ _ _ _ _ _ ex, of 0] m1 m0 W
  show ?thesis by simp
qed

text \<open>
  C1: the invariant of the attention weights is broken by a causal module constructed
  with \<open>max_len = 1\<close> and called on a longer sequence. The forward call does not check
  the sequence length against \<open>max_len\<close>; the slice of the causal mask then has the shape
  (1, 1), \<^verbatim>\<open>masked_fill\<close> expands it over the whole score matrix, and nothing is masked.
  In self-attention over two positions, query position 0 gives the weight 1/2 to the
  later key position 1 (a masked position, whose weight the invariant puts at 0), in a
  row that is not entirely masked. The same call on a module with \<open>max_len = 2\<close> and
  three positions raises.
\<close>

theorem causal_max_len_one_attends_future:
  "attn_weights
     (MultiHeadAttention_init 1 1 1 1 True ([[0]], [0]) ([[0]], [0]) ([[0]], [0]) ([[0]], [0]))
     [[[Fin 0], [Fin 0]]] [[[Fin 0], [Fin 0]]] None
   = Inr [[[[Fin (1 / 2), Fin (1 / 2)], [Fin (1 / 2), Fin (1 / 2)]]]]
   \<and> masked_position True None 0 0 1
   \<and> \<not> masked_position True None 0 0 0
   \<and> [[[[Fin (1 / 2), Fin (1 / 2)], [Fin (1 / 2), Fin (1 / 2 :: real)]]]] ! 0 ! 0 ! 0 ! 1 \<noteq> Fin 0
   \<and> slice_mask (tril_ones 1) 2 2 = [[1]]
   \<and> attn_weights
       (MultiHeadAttention_init 1 1 1 2 True ([[0]], [0]) ([[0]], [0]) ([[0]], [0]) ([[0]], [0]))
       [[[Fin 0], [Fin 0], [Fin 0]]] [[[Fin 0], [Fin 0], [Fin 0]]] None
     = Inl ShapeError"
  by (simp add: attn_eval masked_position_def eval_nat_numeral)





text \<open>
  In a call that returns, a row whose whole mask is closed is NaN, and so is the output
  at that position.
\<close>

lemma closed_row_nan_of_return:
  assumes "MultiHeadAttention_forward
             (MultiHeadAttention_init dk d_model nh max_len c pk pq pv pfc) q k v pad_mask = Inr out"
    and "0 < dk" and "0 < nh" and "[] \<notin> set (fst pfc)"
    and "\<forall>pm. pad_mask = Some pm \<longrightarrow> length pm = length q \<and> length (pm ! n) = length (k ! n)"
    and "c \<longrightarrow> max_len \<noteq> 1 \<or> (length (q ! n) \<le> max_len \<and> length (k ! n) \<le> max_len)"
    and "0 < length (k ! n)" and "\<forall>j<length (k ! n). masked_position c pad_mask n i j"
    and "n < length q" and "i < length (q ! n)"
  shows "\<exists>w. attn_weights (MultiHeadAttention_init dk d_model nh max_len c pk pq pv pfc) q k pad_mask
               = Inr w
           \<and> (\<forall>h<nh. \<forall>j<length (k ! n). w ! n ! h ! i ! j = NaN)
           \<and> length (out ! n ! i) = min (length (fst pfc)) (length (snd pfc))
           \<and> (\<forall>f<length (out ! n ! i). out ! n ! i ! f = NaN)"
proof -
  define m where "m = MultiHeadAttention_init dk d_model nh max_len c pk pq pv pfc"
  have mk: "mha_d_k m = dk" "mha_n_heads m = nh" "weight (mha_fc m) = fst pfc"
    "bias (mha_fc m) = snd pfc" "mha_causal m = c"
    "mha_causal_mask m = (if c then Some (tril_ones max_len) else None)"
    by (simp_all add: m_def MultiHeadAttention_init_def Linear_init_def)
  from forward_batch [OF assms(1) [folded m_def] assms(9)] obtain w vn where
    W: "attn_weights m q k pad_mask = Inr w"
    and A: "attend1 m (length (q ! n)) (length (k ! n)) (w ! n) vn = Inr (out ! n)"
    by blast
  define pad where "pad = (case pad_mask of None \<Rightarrow> None
      | Some pm \<Rightarrow> Some (pm ! (if length pm = length q then n else 0)))"
  from attn_weights_batch [OF W assms(9)] obtain qn kn where
    W1: "attn_weights1 m pad qn kn = Inr (w ! n)"
    and lqn: "length qn = length (q ! n)" and lkn: "length kn = length (k ! n)"
    unfolding pad_def by blast
  have padn: "pad = (case pad_mask of None \<Rightarrow> None | Some pm \<Rightarrow> Some (pm ! n))"
    using assms(5) by (auto simp: pad_def split: option.splits)
  have padlen: "\<And>r. pad = Some r \<Longrightarrow> length r = length kn"
    using assms(5) lkn by (auto simp: padn split: option.splits)
  have le: "c \<Longrightarrow> length qn \<le> max_len \<and> length kn \<le> max_len"
  proof -
    assume c
    with W have W': "attn_weights (MultiHeadAttention_init dk d_model nh max_len True pk pq pv pfc)
        q k pad_mask = Inr w" by (simp add: m_def)
    have T: "0 < length (q ! n)" using assms(10) by (cases "q ! n") auto
    from causal_call_within_max_len [OF W' assms(9) assms(3) T] assms(6) \<open>c\<close> lqn lkn
    show ?thesis by auto
  qed
  have closed: "\<forall>j<length kn. (case pad of None \<Rightarrow> False | Some r \<Rightarrow> r ! j = 0) \<or> (c \<and> i < j)"
    using assms(8) lkn by (auto simp: masked_position_def padn split: option.splits)
  have rows: "length (w ! n ! h) = length (q ! n) \<and> length (w ! n ! h ! i) = length (k ! n)
      \<and> (\<forall>j<length (k ! n). w ! n ! h ! i ! j = NaN)" if h: "h < nh" for h
  proof -
    from attn_weights1_heads [OF W1, of h] h mk(2) obtain qh kh where
      H: "head_weights m (length qn) (length kn) pad qh kh = Inr (w ! n ! h)"
      and lq: "length qh = length qn" and lk: "length kh = length kn"
      by auto
    have i': "i < length qn" using assms(10) lqn by simp
    from head_weights_masked_row [OF H mk(5) mk(6) lq lk le padlen i' closed] lqn lkn
    show ?thesis by simp
  qed
  have lwn: "length (w ! n) = mha_n_heads m"
    using attn_weights1_heads [OF W1, of 0] assms(3) mk(2) by simp
  have rows': "\<forall>h<mha_n_heads m. length (w ! n ! h) = length (q ! n)
      \<and> length (w ! n ! h ! i) = length (k ! n) \<and> (\<forall>j<length (k ! n). w ! n ! h ! i ! j = NaN)"
    using rows mk(2) by simp
  have fc: "[] \<notin> set (weight (mha_fc m))" using assms(4) mk(3) by simp
  from attend1_NaN_row [OF A assms(10) assms(7) _ _ lwn rows' fc] assms(2,3) mk
  have "length (out ! n ! i) = min (length (fst pfc)) (length (snd pfc))
      \<and> (\<forall>f<length (out ! n ! i). out ! n ! i ! f = NaN)" by simp
  then show ?thesis using W rows unfolding m_def by blast
qed

text \<open>
  C7 (amended): the attention engine does not detect a query position whose whole
  key-side mask is closed by the padding mask, alone or together with the causal mask.
  For inputs of the specified shapes (query (N, T_output, d_model), key and value
  (N, T_input, d_model), padding mask (N, T_input), \<open>T_input \<ge> 1\<close>, and both lengths
  within \<open>max_len\<close> when the module is causal) and a module with \<open>d_k \<ge> 1\<close>, at least
  one head and linear layers of the shapes the constructor creates, the forward call
  returns normally, the softmax row of that query is NaN at every key position in every
  head, and each of the \<open>d_model\<close> features of the output at that position is NaN.
\<close>

theorem closed_mask_row_is_nan:
  assumes "0 < dk" and "0 < nh"
    and "linear_shape d_model (dk * nh) pk" and "linear_shape d_model (dk * nh) pq"
    and "linear_shape d_model (dk * nh) pv" and "linear_shape (dk * nh) d_model pfc"
    and "has_shape N T_output d_model q" and "has_shape N T_input d_model k"
    and "has_shape N T_input d_model v" and "mask_shape N T_input pad_mask"
    and "c \<longrightarrow> T_output \<le> max_len \<and> T_input \<le> max_len"
    and "0 < T_input" and "n < N" and "i < T_output"
    and "\<forall>j<T_input. masked_position c pad_mask n i j"
  shows "\<exists>out w.
           MultiHeadAttention_forward
             (MultiHeadAttention_init dk d_model nh max_len c pk pq pv pfc) q k v pad_mask = Inr out
           \<and> attn_weights (MultiHeadAttention_init dk d_model nh max_len c pk pq pv pfc) q k pad_mask
               = Inr w
           \<and> (\<forall>h<nh. \<forall>j<T_input. w ! n ! h ! i ! j = NaN)
           \<and> length (out ! n ! i) = d_model
           \<and> (\<forall>f<d_model. out ! n ! i ! f = NaN)"
proof -
  define m where "m = MultiHeadAttention_init dk d_model nh max_len c pk pq pv pfc"
  have mc: "mha_causal m = c" "mha_causal_mask m = (if c then Some (tril_ones max_len) else None)"
    and mnh: "0 < mha_n_heads m"
    by (simp_all add: m_def assms(2))
  have com: "mha_n_heads m * mha_d_k m = dk * nh" by (simp add: m_def mult.commute)
  have pq: "in_features (mha_query m) = d_model"
    "min (length (weight (mha_query m))) (length (bias (mha_query m))) = mha_n_heads m * mha_d_k m"
    using linear_shape_init [OF assms(4)] by (simp_all add: com) (simp_all add: m_def MultiHeadAttention_init_def)
  have pk: "in_features (mha_key m) = d_model"
    "min (length (weight (mha_key m))) (length (bias (mha_key m))) = mha_n_heads m * mha_d_k m"
    using linear_shape_init [OF assms(3)] by (simp_all add: com) (simp_all add: m_def MultiHeadAttention_init_def)
  have pv: "in_features (mha_value m) = d_model"
    "min (length (weight (mha_value m))) (length (bias (mha_value m))) = mha_n_heads m * mha_d_k m"
    using linear_shape_init [OF assms(5)] by (simp_all add: com) (simp_all add: m_def MultiHeadAttention_init_def)
  have fc: "in_features (mha_fc m) = mha_n_heads m * mha_d_k m"
    using linear_shape_init [OF assms(6)] by (simp add: com) (simp add: m_def MultiHeadAttention_init_def)
  have len: "c \<Longrightarrow> T_output \<le> max_len \<and> T_input \<le> max_len" using assms(11) by simp
  from MultiHeadAttention_forward_total
    [OF mc mnh pq pk pv fc assms(7) assms(8) assms(9) assms(10) len]
  obtain out where F: "MultiHeadAttention_forward
      (MultiHeadAttention_init dk d_model nh max_len c pk pq pv pfc) q k v pad_mask = Inr out"
    unfolding m_def by blast
  have lq: "length q = N" and lqn: "length (q ! n) = T_output" and lkn: "length (k ! n) = T_input"
    using assms(7,8,13) by (auto simp: has_shape_def)
  have ne: "[] \<notin> set (fst pfc)"
  proof
    assume "[] \<in> set (fst pfc)"
    then have "dk * nh = 0" using assms(6) by (auto simp: linear_shape_def)
    then show False using assms(1,2) by simp
  qed
  have pm: "\<forall>pm. pad_mask = Some pm \<longrightarrow> length pm = length q \<and> length (pm ! n) = length (k ! n)"
    using assms(10,13) lq lkn by (auto simp: mask_shape_def)
  have cl: "c \<longrightarrow> max_len \<noteq> 1 \<or> (length (q ! n) \<le> max_len \<and> length (k ! n) \<le> max_len)"
    using assms(11) lqn lkn by simp
  have Tk: "0 < length (k ! n)" using assms(12) lkn by simp
  have all: "\<forall>j<length (k ! n). masked_position c pad_mask n i j" using assms(15) lkn by simp
  have n': "n < length q" using assms(13) lq by simp
  have i': "i < length (q ! n)" using assms(14) lqn by simp
  from closed_row_nan_of_return [OF F assms(1) assms(2) ne pm cl Tk all n' i']
  obtain w where "attn_weights (MultiHeadAttention_init dk d_model nh max_len c pk pq pv pfc) q k pad_mask
               = Inr w"
    "\<forall>h<nh. \<forall>j<length (k ! n). w ! n ! h ! i ! j = NaN"
    "length (out ! n ! i) = min (length (fst pfc)) (length (snd pfc))"
    "\<forall>f<length (out ! n ! i). out ! n ! i ! f = NaN"
    by blast
  moreover have "min (length (fst pfc)) (length (snd pfc)) = d_model"
    using assms(6) by (simp add: linear_shape_def)
  ultimately show ?thesis using F lkn by auto
qed

theorem closed_mask_row_is_nan_witness:
  "MultiHeadAttention_forward
     (MultiHeadAttention_init 1 1 1 2 True ([[0]], [0]) ([[0]], [0]) ([[1]], [0]) ([[1]], [0]))
     [[[Fin 0], [Fin 0]]] [[[Fin 0], [Fin 0]]] [[[Fin 0], [Fin 0]]] (Some [[0, 1]])
   = Inr [[[NaN], [Fin 0]]]
   \<and> attn_weights
       (MultiHeadAttention_init 1 1 1 2 True ([[0]], [0]) ([[0]], [0]) ([[1]], [0]) ([[1]], [0]))
       [[[Fin 0], [Fin 0]]] [[[Fin 0], [Fin 0]]] (Some [[0, 1]])
     = Inr [[[[NaN, NaN], [Fin 0, Fin 1]]]]
   \<and> masked_position True (Some [[0, 1]]) 0 0 0 \<and> masked_position True (Some [[0, 1]]) 0 0 1"
proof -
  have F: "MultiHeadAttention_forward
     (MultiHeadAttention_init 1 1 1 2 True ([[0]], [0]) ([[0]], [0]) ([[1]], [0]) ([[1]], [0]))
     [[[Fin 0], [Fin 0]]] [[[Fin 0], [Fin 0]]] [[[Fin 0], [Fin 0]]] (Some [[0, 1]])
     = Inr [[[NaN], [Fin 0]]]"
    by (simp add: forward_eval eval_nat_numeral)
  have W: "attn_weights
       (MultiHeadAttention_init 1 1 1 2 True ([[0]], [0]) ([[0]], [0]) ([[1]], [0]) ([[1]], [0]))
       [[[Fin 0], [Fin 0]]] [[[Fin 0], [Fin 0]]] (Some [[0, 1]])
     = Inr [[[[NaN, NaN], [Fin 0, Fin 1]]]]"
    by (simp add: attn_eval eval_nat_numeral)
  have z: "\<forall>j<2. masked_position True (Some [[0, 1]]) 0 0 j"
    by (simp add: masked_position_def nth_Cons less_Suc_eq eval_nat_numeral split: nat.splits)
  have s: "linear_shape 1 (1 * 1) ([[0]], [0])" "linear_shape 1 (1 * 1) ([[1]], [0])"
    "linear_shape (1 * 1) 1 ([[1]], [0])"
    "has_shape 1 2 1 [[[Fin 0], [Fin 0]]]" "mask_shape 1 2 (Some [[0, 1]])"
    by (simp_all add: linear_shape_def has_shape_def mask_shape_def)
  from closed_mask_row_is_nan
    [where max_len = 2, OF _ _ s(1) s(1) s(2) s(3) s(4) s(4) s(4) s(5) _ _ _ _ z] F W z
  show ?thesis by (auto simp: eval_nat_numeral)
qed

text \<open>
  Counterexample to C7 as stated. A single query whose only key is padding: the call raises nothing and returns NaN,
  not a zero vector.
\<close>

theorem closed_mask_row_counterexample:
  "MultiHeadAttention_forward
     (MultiHeadAttention_init 1 1 1 1 False ([[0]], [0]) ([[0]], [0]) ([[1]], [0]) ([[1]], [0]))
     [[[Fin 0]]] [[[Fin 0]]] [[[Fin 0]]] (Some [[0]]) = Inr [[[NaN]]]
   \<and> attn_weights
     (MultiHeadAttention_init 1 1 1 1 False ([[0]], [0]) ([[0]], [0]) ([[1]], [0]) ([[1]], [0]))
     [[[Fin 0]]] [[[Fin 0]]] (Some [[0]]) = Inr [[[[NaN]]]]"
  by (simp add: forward_eval)

subsection \<open>Claim on the decoder block\<close>

text \<open>
  C6: the forward pass of a decoder block is the composition, in this order, of causal
  self-attention on the decoder input under the decoder padding mask, cross-attention
  (not causal) from the result to the encoder output under the encoder padding mask, and
  the feed-forward network, each wrapped in residual connection and layer normalization,
  followed by dropout.
\<close>

theorem decoder_block_three_sublayers:
  "DecoderBlock_forward (DecoderBlock_init dk d_model nh max_len p)
       enc_output dec_input enc_mask dec_mask
     = spec_DecoderBlock dk d_model nh max_len p enc_output dec_input enc_mask dec_mask
   \<and> mha_causal (db_mha1 (DecoderBlock_init dk d_model nh max_len p))
   \<and> \<not> mha_causal (db_mha2 (DecoderBlock_init dk d_model nh max_len p))"
proof -
  obtain ln1 ln2 ln3 pk1 pq1 pv1 pfc1 pk2 pq2 pv2 pfc2 ann where
    p: "p = (ln1, ln2, ln3, (pk1, pq1, pv1, pfc1), (pk2, pq2, pv2, pfc2), ann)"
    by (metis prod_cases3)
  show ?thesis
    by (simp add: p DecoderBlock_forward_def DecoderBlock_init_def spec_DecoderBlock_def
        spec_residual_norm_def spec_Attention_def bind_result_assoc)
qed

theorem decoder_block_three_sublayers_witness:
  "DecoderBlock_forward
     (DecoderBlock_init 1 1 1 1
        (Inr, Inr, Inr, (([[0]], [0]), ([[0]], [0]), ([[1]], [0]), ([[1]], [0])),
         (([[0]], [0]), ([[0]], [0]), ([[1]], [0]), ([[1]], [0])), Inr))
     [[[Fin 2]]] [[[Fin 3]]] None None = Inr [[[Fin 16]]]
   \<and> spec_DecoderBlock 1 1 1 1
        (Inr, Inr, Inr, (([[0]], [0]), ([[0]], [0]), ([[1]], [0]), ([[1]], [0])),
         (([[0]], [0]), ([[0]], [0]), ([[1]], [0]), ([[1]], [0])), Inr)
     [[[Fin 2]]] [[[Fin 3]]] None None = Inr [[[Fin 16]]]"
proof -
  have "DecoderBlock_forward
     (DecoderBlock_init 1 1 1 1
        (Inr, Inr, Inr, (([[0]], [0]), ([[0]], [0]), ([[1]], [0]), ([[1]], [0])),
         (([[0]], [0]), ([[0]], [0]), ([[1]], [0]), ([[1]], [0])), Inr))
     [[[Fin 2]]] [[[Fin 3]]] None None = Inr [[[Fin 16]]]"
    by (simp add: DecoderBlock_forward_def DecoderBlock_init_def forward_eval add_tensor_def
        add_mat_def add_vec_def Dropout_forward_def)
  with decoder_block_three_sublayers
    [of 1 1 1 1 "(Inr, Inr, Inr, (([[0]], [0]), ([[0]], [0]), ([[1]], [0]), ([[1]], [0])),
         (([[0]], [0]), ([[0]], [0]), ([[1]], [0]), ([[1]], [0])), Inr)"
       "[[[Fin 2]]]" "[[[Fin 3]]]" None None]
  show ?thesis by simp
qed

subsection \<open>Claims on the positional encoding\<close>

lemma assign_stride2_nth:
  "i < length row \<Longrightarrow>
   assign_stride2 start row v ! i =
     (if start \<le> i \<and> even (i - start) then v ! ((i - start) div 2) else row ! i)"
  unfolding assign_stride2_def by (simp only: nth_map length_upt nth_upt diff_zero add_0)

lemma assign_stride2_length [simp]: "length (assign_stride2 start row v) = length row"
  by (simp add: assign_stride2_def)

lemma PositionalEncoding_init_even:
  assumes "even d_model" and "0 < d_model"
  shows "PositionalEncoding_init d_model max_len =
     Inr \<lparr>pe = map2 (assign_stride2 1)
            (map2 (assign_stride2 0) (replicate max_len (replicate d_model 0))
               (map (\<lambda>p. map (\<lambda>d. sin (p * d))
                  (map (\<lambda>e. exp (e * (- ln 10000 / real d_model)))
                     (map (\<lambda>k. real (2 * k)) [0..<(d_model + 1) div 2])))
                  (map real [0..<max_len])))
            (map (\<lambda>p. map (\<lambda>d. cos (p * d))
                  (map (\<lambda>e. exp (e * (- ln 10000 / real d_model)))
                     (map (\<lambda>k. real (2 * k)) [0..<(d_model + 1) div 2])))
                  (map real [0..<max_len]))\<rparr>"
proof -
  have "(d_model + 1) div 2 = d_model div 2" using assms(1) by presburger
  then show ?thesis using assms(2)
    by (simp add: PositionalEncoding_init_def setitem_stride2_def Let_def)
qed

lemma PositionalEncoding_init_odd:
  assumes "odd d_model" and "3 \<le> d_model"
  shows "PositionalEncoding_init d_model max_len = Inl ShapeError"
proof -
  have a: "(d_model + 1) div 2 \<noteq> d_model div 2" using assms(1) by presburger
  have b: "(d_model + 1) div 2 \<noteq> 1" using assms by presburger
  show ?thesis using assms(2) a b
    by (simp add: PositionalEncoding_init_def setitem_stride2_def Let_def)
qed

lemma pe_entry:
  assumes "PositionalEncoding_init d_model max_len = Inr P"
    and "even d_model" and "pos < max_len" and "i < d_model"
  shows "length (pe P) = max_len \<and> length (pe P ! pos) = d_model \<and>
         pe P ! pos ! i =
           (if even i then sin (real pos / 10000 powr (real (2 * (i div 2)) / real d_model))
            else cos (real pos / 10000 powr (real (2 * (i div 2)) / real d_model)))"
proof -
  have d: "0 < d_model" using assms(4) by simp
  have half: "i div 2 < (d_model + 1) div 2" using assms(2,4) by presburger
  have ang: "real pos * exp (real (2 * k) * (- ln 10000 / real d_model))
      = real pos / 10000 powr (real (2 * k) / real d_model)" for k
    by (simp add: powr_def exp_minus divide_inverse mult.commute)
  have P: "P = \<lparr>pe = map2 (assign_stride2 1)
            (map2 (assign_stride2 0) (replicate max_len (replicate d_model 0))
               (map (\<lambda>p. map (\<lambda>d. sin (p * d))
                  (map (\<lambda>e. exp (e * (- ln 10000 / real d_model)))
                     (map (\<lambda>k. real (2 * k)) [0..<(d_model + 1) div 2])))
                  (map real [0..<max_len])))
            (map (\<lambda>p. map (\<lambda>d. cos (p * d))
                  (map (\<lambda>e. exp (e * (- ln 10000 / real d_model)))
                     (map (\<lambda>k. real (2 * k)) [0..<(d_model + 1) div 2])))
                  (map real [0..<max_len]))\<rparr>"
    using assms(1) PositionalEncoding_init_even [OF assms(2) d, of max_len] by simp
  have len: "length (pe P) = max_len \<and> length (pe P ! pos) = d_model"
    using assms(3) by (simp add: P)
  have row: "pe P ! pos =
      assign_stride2 1
        (assign_stride2 0 (replicate d_model 0)
           (map (\<lambda>d. sin (real pos * d))
              (map (\<lambda>e. exp (e * (- ln 10000 / real d_model)))
                 (map (\<lambda>k. real (2 * k)) [0..<(d_model + 1) div 2]))))
        (map (\<lambda>d. cos (real pos * d))
           (map (\<lambda>e. exp (e * (- ln 10000 / real d_model)))
              (map (\<lambda>k. real (2 * k)) [0..<(d_model + 1) div 2])))"
    using assms(3) by (simp add: P)
  have entry: "pe P ! pos ! i =
      (if even i then sin (real pos * exp (real (2 * (i div 2)) * (- ln 10000 / real d_model)))
       else cos (real pos * exp (real (2 * (i div 2)) * (- ln 10000 / real d_model))))"
  proof (cases "even i")
    case True
    then have n1: "\<not> (1 \<le> i \<and> even (i - 1))" by presburger
    have "pe P ! pos ! i =
        assign_stride2 0 (replicate d_model 0)
           (map (\<lambda>d. sin (real pos * d))
              (map (\<lambda>e. exp (e * (- ln 10000 / real d_model)))
                 (map (\<lambda>k. real (2 * k)) [0..<(d_model + 1) div 2]))) ! i"
      unfolding row using True assms(4) by (subst assign_stride2_nth) auto
    also have "\<dots> = sin (real pos * exp (real (2 * (i div 2)) * (- ln 10000 / real d_model)))"
      using True assms(4) half by (subst assign_stride2_nth) (simp_all del: of_nat_mult)
    finally show ?thesis using True by simp
  next
    case False
    then have o: "1 \<le> i \<and> even (i - 1)" and h: "(i - 1) div 2 = i div 2" by presburger+
    have "pe P ! pos ! i =
        (map (\<lambda>d. cos (real pos * d))
           (map (\<lambda>e. exp (e * (- ln 10000 / real d_model)))
              (map (\<lambda>k. real (2 * k)) [0..<(d_model + 1) div 2]))) ! (i div 2)"
      unfolding row using False o h assms(4) by (subst assign_stride2_nth) auto
    also have "\<dots> = cos (real pos * exp (real (2 * (i div 2)) * (- ln 10000 / real d_model)))"
      using half by (simp del: of_nat_mult)
    finally show ?thesis using False by simp
  qed
  show ?thesis unfolding entry ang using len by simp
qed

lemma add_positions_ok:
  assumes "length xn \<le> length tbl"
    and "\<forall>t<length xn. length (xn ! t) = length (tbl ! t)"
  shows "add_positions tbl xn = Inr (map2 (map2 fl_add) xn (map (map Fin) (take (length xn) tbl)))"
proof -
  have e: "expand (length xn) (take (length xn) tbl) = Inr (take (length xn) tbl)"
    using assms(1) by (simp add: expand_def)
  have each: "(case z of (xrow, prow) \<Rightarrow>
           bind_result (expand (length xrow) prow) (\<lambda>pr. Inr (map2 fl_add xrow (map Fin pr))))
      = Inr (case z of (xrow, prow) \<Rightarrow> map2 fl_add xrow (map Fin prow))"
    if "z \<in> set (zip xn (take (length xn) tbl))" for z
  proof -
    from that obtain t where t: "t < length xn" "z = (xn ! t, take (length xn) tbl ! t)"
      using assms(1) by (auto simp: set_zip)
    then have "length (snd z) = length (fst z)" using assms by simp
    then show ?thesis by (cases z) (simp add: expand_def)
  qed
  have "traverse (\<lambda>(xrow, prow).
           bind_result (expand (length xrow) prow) (\<lambda>pr. Inr (map2 fl_add xrow (map Fin pr))))
         (zip xn (take (length xn) tbl))
      = Inr (map (\<lambda>(xrow, prow). map2 fl_add xrow (map Fin prow)) (zip xn (take (length xn) tbl)))"
    by (rule traverse_map) (use each in auto)
  moreover have "map (\<lambda>(xrow, prow). map2 fl_add xrow (map Fin prow)) (zip xn (take (length xn) tbl))
      = map2 (map2 fl_add) xn (map (map Fin) (take (length xn) tbl))"
    by (simp add: zip_map2 case_prod_unfold)
  ultimately show ?thesis by (simp add: add_positions_def e)
qed

lemma pe_shape:
  assumes "PositionalEncoding_init d_model max_len = Inr P" and "even d_model"
  shows "length (pe P) = max_len" and "\<forall>t<max_len. length (pe P ! t) = d_model"
proof -
  have d: "0 < d_model"
    using assms(1) by (cases "d_model = 0") (simp_all add: PositionalEncoding_init_def)
  show "length (pe P) = max_len"
    using assms(1) PositionalEncoding_init_even [OF assms(2) d, of max_len] by auto
  show "\<forall>t<max_len. length (pe P ! t) = d_model"
    using assms(1) PositionalEncoding_init_even [OF assms(2) d, of max_len] by auto
qed

lemma PositionalEncoding_forward_ok:
  assumes "PositionalEncoding_init d_model max_len = Inr P" and "even d_model"
    and "\<forall>n<length x. length (x ! n) \<le> max_len \<and> (\<forall>t<length (x ! n). length (x ! n ! t) = d_model)"
  shows "PositionalEncoding_forward P x =
     Inr (map (\<lambda>xn. map2 (map2 fl_add) xn (map (map Fin) (take (length xn) (pe P)))) x)"
proof -
  note sh = pe_shape [OF assms(1,2)]
  have "add_positions (pe P) xn
      = Inr (map2 (map2 fl_add) xn (map (map Fin) (take (length xn) (pe P))))"
    if "xn \<in> set x" for xn
  proof -
    from that obtain n where n: "n < length x" "xn = x ! n" by (auto simp: in_set_conv_nth)
    show ?thesis
      by (rule add_positions_ok) (use n assms(3) sh in auto)
  qed
  then have "traverse (add_positions (pe P)) x
      = Inr (map (\<lambda>xn. map2 (map2 fl_add) xn (map (map Fin) (take (length xn) (pe P)))) x)"
    by (rule traverse_map)
  then show ?thesis by (simp add: PositionalEncoding_forward_def Dropout_forward_def)
qed

lemma upt_0_2: "[0..<2] = [0, 1]"
  by (simp add: eval_nat_numeral)

lemma replicate_2: "replicate 2 x = [x, x]"
  by (simp add: eval_nat_numeral)

lemma PositionalEncoding_init_2_1: "PositionalEncoding_init 2 1 = Inr \<lparr>pe = [[0, 1]]\<rparr>"
  by (simp add: PositionalEncoding_init_def setitem_stride2_def assign_stride2_def Let_def
      upt_0_2)

text \<open>
  C5: for even \<open>d_model\<close> the table built by the constructor has the sinusoidal entries
  \<open>PE[pos, i] = sin (pos / 10000 ^ (2 * (i div 2) / d_model))\<close> at even \<open>i\<close> and the cosine
  of the same angle at odd \<open>i\<close>, and the forward operation on an input of shape
  (N, T, d_model) with \<open>T \<le> max_len\<close> returns the input plus the first \<open>T\<close> rows of the
  table, the same rows for every batch element. The constructor takes nothing but the
  two sizes, so the table holds no learned parameter.
\<close>

theorem positional_encoding_table_and_forward:
  assumes "PositionalEncoding_init d_model max_len = Inr P" and "even d_model"
    and "pos < max_len" and "i < d_model"
    and "\<forall>n<length x. length (x ! n) \<le> max_len \<and> (\<forall>t<length (x ! n). length (x ! n ! t) = d_model)"
  shows "pe P ! pos ! i =
           (if even i then sin (real pos / 10000 powr (real (2 * (i div 2)) / real d_model))
            else cos (real pos / 10000 powr (real (2 * (i div 2)) / real d_model)))
         \<and> PositionalEncoding_forward P x =
             Inr (map (\<lambda>xn. map2 (map2 fl_add) xn (map (map Fin) (take (length xn) (pe P)))) x)"
  using pe_entry [OF assms(1-4)] PositionalEncoding_forward_ok [OF assms(1,2,5)] by simp

theorem positional_encoding_table_and_forward_witness:
  "PositionalEncoding_init 2 1 = Inr \<lparr>pe = [[0, 1]]\<rparr>
   \<and> pe \<lparr>pe = [[0, 1]]\<rparr> ! 0 ! 1 = cos (0 / 10000 powr (0 / 2))
   \<and> PositionalEncoding_forward \<lparr>pe = [[0, 1]]\<rparr> [[[Fin 5, Fin 7]]] = Inr [[[Fin 5, Fin 8]]]"
proof -
  have sh: "\<forall>n<length [[[Fin 5, Fin 7]]].
      length ([[[Fin 5, Fin 7]]] ! n) \<le> 1 \<and>
      (\<forall>t<length ([[[Fin 5, Fin 7]]] ! n). length ([[[Fin 5, Fin 7]]] ! n ! t) = 2)"
    by simp
  from positional_encoding_table_and_forward [OF PositionalEncoding_init_2_1 _ _ _ sh, of 0 1]
  show ?thesis using PositionalEncoding_init_2_1 by simp
qed

text \<open>
  C10 (amended): the constructor succeeds for every even \<open>d_model \<ge> 2\<close>; for every odd
  \<open>d_model \<ge> 3\<close> the cosine assignment, of width \<open>(d_model + 1) div 2\<close> into
  \<open>d_model div 2\<close> columns, fails with a shape error, and so do the constructors of the
  encoder and decoder stacks; for \<open>d_model = 1\<close> the single cosine column is expanded to
  the zero odd-indexed columns and the constructor succeeds.
\<close>

theorem positional_encoding_init_parity:
  "(even d_model \<and> 2 \<le> d_model \<longrightarrow> (\<exists>P. PositionalEncoding_init d_model max_len = Inr P))
   \<and> (odd d_model \<and> 3 \<le> d_model \<longrightarrow>
        setitem_stride2 1 d_model tbl ((d_model + 1) div 2) src = Inl ShapeError
        \<and> PositionalEncoding_init d_model max_len = Inl ShapeError
        \<and> Encoder_init vocab_size max_len dk d_model nh n_layers emb enc_params enc_norm
            = Inl ShapeError
        \<and> Decoder_init vocab_size max_len dk d_model nh n_layers emb dec_params dec_norm pfc
            = Inl ShapeError)
   \<and> (\<exists>P. PositionalEncoding_init 1 max_len = Inr P)"
proof (intro conjI impI)
  assume "even d_model \<and> 2 \<le> d_model"
  then show "\<exists>P. PositionalEncoding_init d_model max_len = Inr P"
    using PositionalEncoding_init_even [of d_model max_len] by simp
next
  assume a: "odd d_model \<and> 3 \<le> d_model"
  then have "(d_model + 1) div 2 \<noteq> d_model div 2" "(d_model + 1) div 2 \<noteq> 1" by presburger+
  then show "setitem_stride2 1 d_model tbl ((d_model + 1) div 2) src = Inl ShapeError"
    by (simp add: setitem_stride2_def)
  from a have P: "PositionalEncoding_init d_model max_len = Inl ShapeError"
    using PositionalEncoding_init_odd by simp
  then show "PositionalEncoding_init d_model max_len = Inl ShapeError" .
  from P show "Encoder_init vocab_size max_len dk d_model nh n_layers emb enc_params enc_norm
            = Inl ShapeError"
    by (simp add: Encoder_init_def)
  from P show "Decoder_init vocab_size max_len dk d_model nh n_layers emb dec_params dec_norm pfc
            = Inl ShapeError"
    by (simp add: Decoder_init_def)
next
  show "\<exists>P. PositionalEncoding_init 1 max_len = Inr P"
    by (simp add: PositionalEncoding_init_def setitem_stride2_def Let_def)
qed

theorem positional_encoding_init_parity_witness:
  "(\<exists>P. PositionalEncoding_init 2 1 = Inr P) \<and> PositionalEncoding_init 3 1 = Inl ShapeError"
  using positional_encoding_init_parity [of 2 1] positional_encoding_init_parity [of 3 1]
  by simp

text \<open>
  Counterexample to C10 as stated. \<open>d_model = 1\<close> is odd and the constructor succeeds;
  the table has the sine column alone.
\<close>

theorem positional_encoding_init_one_counterexample:
  "odd (1::nat) \<and> PositionalEncoding_init 1 2 = Inr \<lparr>pe = [[0], [sin 1]]\<rparr>"
  by (simp add: PositionalEncoding_init_def setitem_stride2_def assign_stride2_def Let_def
      upt_0_2 replicate_2)

subsection \<open>Claims on the encoder and decoder stacks\<close>

lemmas stack_eval = translate_predict_def Decoder_forward_def Encoder_forward_def
  Embedding_forward_def embedding_lookup_def PositionalEncoding_forward_def add_positions_def
  expand_def Dropout_forward_def Linear_forward3_def Linear_forward_def Linear_init_def dot_def
  last_position_def argmax_def view_1_1_def

lemma one_layer_encoder:
  "Encoder_forward
     \<lparr>enc_embedding = \<lparr>num_embeddings = 2, emb_weight = [[3], [4]]\<rparr>,
      enc_pos_encoding = \<lparr>pe = [[0]]\<rparr>,
      enc_transformer_blocks =
        [EncoderBlock_init 1 1 1 1
           (Inr, Inr, (([[0]], [0]), ([[0]], [0]), ([[1]], [0]), ([[1]], [0])), Inr)],
      enc_ln = Inr\<rparr>
     [[1]] (Some [[1]]) = Inr [[[Fin 16]]]"
  by (simp add: stack_eval block_eval forward_eval)

lemma one_layer_decoder:
  "Decoder_forward
     \<lparr>dec_embedding = \<lparr>num_embeddings = 2, emb_weight = [[3], [4]]\<rparr>,
      dec_pos_encoding = \<lparr>pe = [[0]]\<rparr>,
      dec_transformer_blocks =
        [DecoderBlock_init 1 1 1 1
           (Inr, Inr, Inr, (([[0]], [0]), ([[0]], [0]), ([[1]], [0]), ([[1]], [0])),
            (([[0]], [0]), ([[0]], [0]), ([[1]], [0]), ([[1]], [0])), Inr)],
      dec_ln = Inr, dec_fc = Linear_init 1 2 ([[0], [1]], [100, 0])\<rparr>
     [[[Fin 16]]] [[0]] (Some [[1]]) (Some [[1]]) = Inr [[[Fin 100, Fin 44]]]"
  by (simp add: stack_eval block_eval forward_eval)

lemma one_layer_decoder_step:
  "translate_predict
     \<lparr>dec_embedding = \<lparr>num_embeddings = 2, emb_weight = [[3], [4]]\<rparr>,
      dec_pos_encoding = \<lparr>pe = [[0]]\<rparr>,
      dec_transformer_blocks =
        [DecoderBlock_init 1 1 1 1
           (Inr, Inr, Inr, (([[0]], [0]), ([[0]], [0]), ([[1]], [0]), ([[1]], [0])),
            (([[0]], [0]), ([[0]], [0]), ([[1]], [0]), ([[1]], [0])), Inr)],
      dec_ln = Inr, dec_fc = Linear_init 1 2 ([[0], [1]], [0, 0])\<rparr>
     [[[Fin 16]]] [1] [1] [1] = Inr 1"
  by (simp add: stack_eval block_eval forward_eval)

lemma Embedding_forward_out_of_range:
  assumes "n < length x" and "t < length (x ! n)"
    and "x ! n ! t < 0 \<or> int (num_embeddings E) \<le> x ! n ! t"
  shows "Embedding_forward E x = Inl IndexError"
proof -
  have only: "embedding_lookup E tok = Inl e' \<Longrightarrow> e' = IndexError" for tok e'
    by (auto simp: embedding_lookup_def split: if_splits)
  have bad: "embedding_lookup E (x ! n ! t) = Inl IndexError"
    using assms(3) by (auto simp: embedding_lookup_def)
  have row: "traverse (embedding_lookup E) (x ! n) = Inl IndexError"
    by (rule traverse_Inl [of "x ! n ! t"]) (use assms(2) bad only in auto)
  have rows: "traverse (embedding_lookup E) y = Inl e' \<Longrightarrow> e' = IndexError" for y e'
    using traverse_Inl_source [of "embedding_lookup E" y e'] only by blast
  have "traverse (traverse (embedding_lookup E)) x = Inl IndexError"
    by (rule traverse_Inl [of "x ! n"]) (use assms(1) row rows in auto)
  then show ?thesis by (simp add: Embedding_forward_def)
qed

text \<open>
  C8: a token id outside \<open>0 ..< vocab_size\<close> anywhere in the input of the encoder or of
  the decoder makes the forward call fail with the out-of-range error of the embedding
  lookup, which is the first operation of both; no id is wrapped or clamped and no
  result is returned.
\<close>

theorem embedding_out_of_range_fails:
  assumes "Encoder_init vocab_size max_len dk d_model nh n_layers emb enc_params enc_norm = Inr e"
    and "Decoder_init vocab_size max_len dk d_model nh n_layers emb' dec_params dec_norm pfc = Inr d"
    and "n < length x" and "t < length (x ! n)"
    and "x ! n ! t < 0 \<or> int vocab_size \<le> x ! n ! t"
  shows "Encoder_forward e x pad_mask = Inl IndexError
         \<and> Decoder_forward d enc_output x enc_mask dec_mask = Inl IndexError"
proof -
  from assms(1) have "num_embeddings (enc_embedding e) = vocab_size"
    by (auto simp: Encoder_init_def bind_result_eq_Inr)
  then have "Embedding_forward (enc_embedding e) x = Inl IndexError"
    using Embedding_forward_out_of_range [OF assms(3,4), of "enc_embedding e"] assms(5) by simp
  then have E: "Encoder_forward e x pad_mask = Inl IndexError"
    by (simp add: Encoder_forward_def)
  from assms(2) have "num_embeddings (dec_embedding d) = vocab_size"
    by (auto simp: Decoder_init_def bind_result_eq_Inr)
  then have "Embedding_forward (dec_embedding d) x = Inl IndexError"
    using Embedding_forward_out_of_range [OF assms(3,4), of "dec_embedding d"] assms(5) by simp
  then have "Decoder_forward d enc_output x enc_mask dec_mask = Inl IndexError"
    by (simp add: Decoder_forward_def)
  with E show ?thesis by simp
qed

theorem embedding_out_of_range_fails_witness:
  "Encoder_forward
     \<lparr>enc_embedding = \<lparr>num_embeddings = 2, emb_weight = [[0, 0], [0, 0]]\<rparr>,
      enc_pos_encoding = \<lparr>pe = [[0, 1]]\<rparr>, enc_transformer_blocks = [], enc_ln = Inr\<rparr>
     [[1, 2]] None = Inl IndexError
   \<and> Decoder_forward
     \<lparr>dec_embedding = \<lparr>num_embeddings = 2, emb_weight = [[0, 0], [0, 0]]\<rparr>,
      dec_pos_encoding = \<lparr>pe = [[0, 1]]\<rparr>, dec_transformer_blocks = [], dec_ln = Inr,
      dec_fc = Linear_init 2 2 ([[0, 0], [0, 0]], [0, 1])\<rparr>
     [] [[1, 2]] None None = Inl IndexError"
proof -
  have e: "Encoder_init 2 1 1 2 1 0 [[0, 0], [0, 0]] undefined Inr =
      Inr \<lparr>enc_embedding = \<lparr>num_embeddings = 2, emb_weight = [[0, 0], [0, 0]]\<rparr>,
           enc_pos_encoding = \<lparr>pe = [[0, 1]]\<rparr>, enc_transformer_blocks = [], enc_ln = Inr\<rparr>"
    by (simp only: Encoder_init_def PositionalEncoding_init_2_1 bind_result_Inr) simp
  have d: "Decoder_init 2 1 1 2 1 0 [[0, 0], [0, 0]] undefined Inr ([[0, 0], [0, 0]], [0, 1]) =
      Inr \<lparr>dec_embedding = \<lparr>num_embeddings = 2, emb_weight = [[0, 0], [0, 0]]\<rparr>,
           dec_pos_encoding = \<lparr>pe = [[0, 1]]\<rparr>, dec_transformer_blocks = [], dec_ln = Inr,
           dec_fc = Linear_init 2 2 ([[0, 0], [0, 0]], [0, 1])\<rparr>"
    by (simp only: Decoder_init_def PositionalEncoding_init_2_1 bind_result_Inr) simp
  have r: "[[1, 2 :: int]] ! 0 ! 1 < 0 \<or> int 2 \<le> [[1, 2]] ! 0 ! 1" by simp
  from embedding_out_of_range_fails [OF e d _ _ r] show ?thesis by simp
qed

text \<open>
  C9: in evaluation mode the forward pass of the Transformer is the forward pass of its
  decoder on the output of the forward pass of its encoder, with the same inputs and
  masks; an exception of the encoder is the exception of the whole.
\<close>

theorem transformer_forward_is_composition:
  "Transformer_forward (Transformer_init encoder decoder) enc_input dec_input enc_mask dec_mask
     = bind_result (Encoder_forward encoder enc_input enc_mask)
         (\<lambda>enc_output. Decoder_forward decoder enc_output dec_input enc_mask dec_mask)
   \<and> (Encoder_forward encoder enc_input enc_mask = Inr enc_output \<longrightarrow>
        Transformer_forward (Transformer_init encoder decoder) enc_input dec_input enc_mask dec_mask
          = Decoder_forward decoder enc_output dec_input enc_mask dec_mask)
   \<and> (Encoder_forward encoder enc_input enc_mask = Inl err \<longrightarrow>
        Transformer_forward (Transformer_init encoder decoder) enc_input dec_input enc_mask dec_mask
          = Inl err)"
  by (simp add: Transformer_forward_def Transformer_init_def)

theorem transformer_forward_is_composition_witness:
  "Encoder_forward
     \<lparr>enc_embedding = \<lparr>num_embeddings = 2, emb_weight = [[3], [4]]\<rparr>,
      enc_pos_encoding = \<lparr>pe = [[0]]\<rparr>,
      enc_transformer_blocks =
        [EncoderBlock_init 1 1 1 1
           (Inr, Inr, (([[0]], [0]), ([[0]], [0]), ([[1]], [0]), ([[1]], [0])), Inr)],
      enc_ln = Inr\<rparr>
     [[1]] (Some [[1]]) = Inr [[[Fin 16]]]
   \<and> Transformer_forward
       (Transformer_init
          \<lparr>enc_embedding = \<lparr>num_embeddings = 2, emb_weight = [[3], [4]]\<rparr>,
           enc_pos_encoding = \<lparr>pe = [[0]]\<rparr>,
           enc_transformer_blocks =
             [EncoderBlock_init 1 1 1 1
                (Inr, Inr, (([[0]], [0]), ([[0]], [0]), ([[1]], [0]), ([[1]], [0])), Inr)],
           enc_ln = Inr\<rparr>
          \<lparr>dec_embedding = \<lparr>num_embeddings = 2, emb_weight = [[3], [4]]\<rparr>,
           dec_pos_encoding = \<lparr>pe = [[0]]\<rparr>,
           dec_transformer_blocks =
             [DecoderBlock_init 1 1 1 1
                (Inr, Inr, Inr, (([[0]], [0]), ([[0]], [0]), ([[1]], [0]), ([[1]], [0])),
                 (([[0]], [0]), ([[0]], [0]), ([[1]], [0]), ([[1]], [0])), Inr)],
           dec_ln = Inr, dec_fc = Linear_init 1 2 ([[0], [1]], [100, 0])\<rparr>)
       [[1]] [[0]] (Some [[1]]) (Some [[1]])
     = Decoder_forward
          \<lparr>dec_embedding = \<lparr>num_embeddings = 2, emb_weight = [[3], [4]]\<rparr>,
           dec_pos_encoding = \<lparr>pe = [[0]]\<rparr>,
           dec_transformer_blocks =
             [DecoderBlock_init 1 1 1 1
                (Inr, Inr, Inr, (([[0]], [0]), ([[0]], [0]), ([[1]], [0]), ([[1]], [0])),
                 (([[0]], [0]), ([[0]], [0]), ([[1]], [0]), ([[1]], [0])), Inr)],
           dec_ln = Inr, dec_fc = Linear_init 1 2 ([[0], [1]], [100, 0])\<rparr>
          [[[Fin 16]]] [[0]] (Some [[1]]) (Some [[1]])
   \<and> Transformer_forward
       (Transformer_init
          \<lparr>enc_embedding = \<lparr>num_embeddings = 2, emb_weight = [[3], [4]]\<rparr>,
           enc_pos_encoding = \<lparr>pe = [[0]]\<rparr>,
           enc_transformer_blocks =
             [EncoderBlock_init 1 1 1 1
                (Inr, Inr, (([[0]], [0]), ([[0]], [0]), ([[1]], [0]), ([[1]], [0])), Inr)],
           enc_ln = Inr\<rparr>
          \<lparr>dec_embedding = \<lparr>num_embeddings = 2, emb_weight = [[3], [4]]\<rparr>,
           dec_pos_encoding = \<lparr>pe = [[0]]\<rparr>,
           dec_transformer_blocks =
             [DecoderBlock_init 1 1 1 1
                (Inr, Inr, Inr, (([[0]], [0]), ([[0]], [0]), ([[1]], [0]), ([[1]], [0])),
                 (([[0]], [0]), ([[0]], [0]), ([[1]], [0]), ([[1]], [0])), Inr)],
           dec_ln = Inr, dec_fc = Linear_init 1 2 ([[0], [1]], [100, 0])\<rparr>)
       [[1]] [[0]] (Some [[1]]) (Some [[1]])
     = Inr [[[Fin 100, Fin 44]]]"
  using transformer_forward_is_composition
    [of "\<lparr>enc_embedding = \<lparr>num_embeddings = 2, emb_weight = [[3], [4]]\<rparr>,
              enc_pos_encoding = \<lparr>pe = [[0]]\<rparr>,
              enc_transformer_blocks =
                [EncoderBlock_init 1 1 1 1
                   (Inr, Inr, (([[0]], [0]), ([[0]], [0]), ([[1]], [0]), ([[1]], [0])), Inr)],
              enc_ln = Inr\<rparr>"
        "\<lparr>dec_embedding = \<lparr>num_embeddings = 2, emb_weight = [[3], [4]]\<rparr>,
              dec_pos_encoding = \<lparr>pe = [[0]]\<rparr>,
              dec_transformer_blocks =
                [DecoderBlock_init 1 1 1 1
                   (Inr, Inr, Inr, (([[0]], [0]), ([[0]], [0]), ([[1]], [0]), ([[1]], [0])),
                    (([[0]], [0]), ([[0]], [0]), ([[1]], [0]), ([[1]], [0])), Inr)],
              dec_ln = Inr, dec_fc = Linear_init 1 2 ([[0], [1]], [100, 0])\<rparr>"
        "[[1]]" "[[0]]" "Some [[1]]" "Some [[1]]" "[[[Fin 16]]]"]
    one_layer_encoder one_layer_decoder
  by simp

subsection \<open>Claims on the generation loop\<close>




lemma fl_gt_chain: "\<not> fl_gt y b \<Longrightarrow> fl_gt x b \<Longrightarrow> \<not> fl_gt y x"
  by (cases x; cases y; cases b) auto

lemma fl_gt_irrefl [simp]: "\<not> fl_gt x x"
  by (cases x) auto

lemma argmax_from_spec:
  assumes "best < length pre" and "pre ! best = bv"
    and "\<forall>j<length pre. \<not> fl_gt (pre ! j) bv"
  shows "argmax_from best bv (length pre) xs < length (pre @ xs)
         \<and> (\<forall>j<length (pre @ xs).
               \<not> fl_gt ((pre @ xs) ! j) ((pre @ xs) ! argmax_from best bv (length pre) xs))"
  using assms
proof (induction xs arbitrary: best bv pre)
  case Nil
  then show ?case by simp
next
  case (Cons x xs)
  show ?case
  proof (cases "fl_gt x bv")
    case True
    have a: "length pre < length (pre @ [x])" by simp
    have b: "(pre @ [x]) ! length pre = x" by simp
    have c: "\<forall>j<length (pre @ [x]). \<not> fl_gt ((pre @ [x]) ! j) x"
    proof (intro allI impI)
      fix j assume j: "j < length (pre @ [x])"
      show "\<not> fl_gt ((pre @ [x]) ! j) x"
      proof (cases "j < length pre")
        case True
        then have "\<not> fl_gt (pre ! j) bv" using Cons.prems(3) by simp
        then have "\<not> fl_gt (pre ! j) x" using \<open>fl_gt x bv\<close> by (rule fl_gt_chain)
        then show ?thesis using True by (simp add: nth_append)
      next
        case False
        then have "j = length pre" using j by simp
        then show ?thesis by simp
      qed
    qed
    from Cons.IH [OF a b c] True show ?thesis by simp
  next
    case False
    have a: "best < length (pre @ [x])" using Cons.prems(1) by simp
    have b: "(pre @ [x]) ! best = bv" using Cons.prems(1,2) by (simp add: nth_append)
    have c: "\<forall>j<length (pre @ [x]). \<not> fl_gt ((pre @ [x]) ! j) bv"
      using Cons.prems(3) False by (auto simp: nth_append less_Suc_eq)
    from Cons.IH [OF a b c] False show ?thesis by simp
  qed
qed

lemma argmax_Inr:
  assumes "argmax xs = Inr a"
  shows "a < length xs \<and> (\<forall>j<length xs. \<not> fl_gt (xs ! j) (xs ! a))"
proof (cases xs)
  case Nil
  then show ?thesis using assms by (simp add: argmax_def)
next
  case (Cons x rest)
  then have a: "a = argmax_from 0 x (length [x]) rest" using assms by (simp add: argmax_def)
  have "argmax_from 0 x (length [x]) rest < length ([x] @ rest)
         \<and> (\<forall>j<length ([x] @ rest).
               \<not> fl_gt (([x] @ rest) ! j) (([x] @ rest) ! argmax_from 0 x (length [x]) rest))"
    by (rule argmax_from_spec) simp_all
  then show ?thesis using a Cons by simp
qed

lemma translate_predict_Inr:
  assumes "translate_predict decoder enc_output enc_mask ids ones = Inr p"
  shows "\<exists>out. Decoder_forward decoder enc_output [ids] (Some [enc_mask]) (Some [ones]) = Inr out
           \<and> length out = 1 \<and> out ! 0 \<noteq> []
           \<and> 0 \<le> p \<and> argmax (last (out ! 0)) = Inr (nat p)
           \<and> nat p < length (last (out ! 0))
           \<and> (\<forall>j<length (last (out ! 0)).
                 \<not> fl_gt (last (out ! 0) ! j) (last (out ! 0) ! nat p))"
proof -
  from assms obtain out logits am where
    out: "Decoder_forward decoder enc_output [ids] (Some [enc_mask]) (Some [ones]) = Inr out"
    and lp: "last_position out = Inr logits"
    and am: "traverse argmax logits = Inr am"
    and v: "view_1_1 am = Inr p"
    by (auto simp: translate_predict_def bind_result_eq_Inr)
  from v obtain a where a: "am = [a]" "p = int a"
    by (auto simp: view_1_1_def split: list.splits)
  from traverse_Inr_length [OF am] a have ll: "length logits = 1" by simp
  from traverse_Inr_length [OF lp [unfolded last_position_def]] ll have lo: "length out = 1" by simp
  from traverse_Inr_nth [OF lp [unfolded last_position_def], of 0] lo
  have ne: "out ! 0 \<noteq> []" and l0: "logits ! 0 = last (out ! 0)"
    by (auto split: if_splits)
  from traverse_Inr_nth [OF am, of 0] ll a l0 have "argmax (last (out ! 0)) = Inr a" by simp
  with argmax_Inr [OF this] out lo ne a show ?thesis by simp
qed

lemma generate_predict_Inr:
  assumes "generate_predict model ids ones = Inr p"
  shows "\<exists>out. model [ids] (Some [ones]) = Inr out
           \<and> length out = 1 \<and> out ! 0 \<noteq> []
           \<and> 0 \<le> p \<and> argmax (last (out ! 0)) = Inr (nat p)
           \<and> nat p < length (last (out ! 0))
           \<and> (\<forall>j<length (last (out ! 0)).
                 \<not> fl_gt (last (out ! 0) ! j) (last (out ! 0) ! nat p))"
proof -
  from assms obtain out logits am where
    out: "model [ids] (Some [ones]) = Inr out"
    and lp: "last_position out = Inr logits"
    and am: "traverse argmax logits = Inr am"
    and v: "view_1_1 am = Inr p"
    by (auto simp: generate_predict_def bind_result_eq_Inr)
  from v obtain a where a: "am = [a]" "p = int a"
    by (auto simp: view_1_1_def split: list.splits)
  from traverse_Inr_length [OF am] a have ll: "length logits = 1" by simp
  from traverse_Inr_length [OF lp [unfolded last_position_def]] ll have lo: "length out = 1" by simp
  from traverse_Inr_nth [OF lp [unfolded last_position_def], of 0] lo
  have ne: "out ! 0 \<noteq> []" and l0: "logits ! 0 = last (out ! 0)"
    by (auto split: if_splits)
  from traverse_Inr_nth [OF am, of 0] ll a l0 have "argmax (last (out ! 0)) = Inr a" by simp
  with argmax_Inr [OF this] out lo ne a show ?thesis by simp
qed

lemma state_after_Some:
  assumes "state_after predict eos k s0 = Some (ids, ones)"
  shows "length ids = length (fst s0) + k
         \<and> (0 < k \<longrightarrow> ones = replicate (length ids) 1)
         \<and> (k = 0 \<longrightarrow> ones = snd s0)
         \<and> (\<exists>g. ids = fst s0 @ g \<and> eos \<notin> set g)
         \<and> (\<forall>n. generation_loop predict eos (k + n) s0 = generation_loop predict eos n (ids, ones))"
  using assms
proof (induction k arbitrary: s0)
  case 0
  then show ?case by auto
next
  case (Suc k)
  from Suc.prems obtain p where p: "predict (fst s0) (snd s0) = Inr p" and ne: "p \<noteq> eos"
    and r: "state_after predict eos k (fst s0 @ [p], replicate (length (fst s0 @ [p])) 1)
              = Some (ids, ones)"
    by (auto split: sum.splits if_splits)
  from Suc.IH [OF r] obtain g where
    l: "length ids = length (fst s0 @ [p]) + k"
    and o: "0 < k \<longrightarrow> ones = replicate (length ids) 1"
    and o0: "k = 0 \<longrightarrow> ones = replicate (length (fst s0 @ [p])) 1"
    and g: "ids = (fst s0 @ [p]) @ g" "eos \<notin> set g"
    and L: "\<forall>n. generation_loop predict eos (k + n)
               (fst s0 @ [p], replicate (length (fst s0 @ [p])) 1)
             = generation_loop predict eos n (ids, ones)"
    by auto
  have ones: "ones = replicate (length ids) 1"
    using o o0 l by (cases k) auto
  have "ids = fst s0 @ (p # g) \<and> eos \<notin> set (p # g)" using g ne by simp
  then have ex: "\<exists>g. ids = fst s0 @ g \<and> eos \<notin> set g" by blast
  have "\<forall>n. generation_loop predict eos (Suc k + n) s0 = generation_loop predict eos n (ids, ones)"
    using p ne L by (simp add: Let_def)
  then show ?case using l ones ex by simp
qed




text \<open>
  C4 (amended): a transition of the generation loop, in \<^verbatim>\<open>translate\<close> and in the cell
  of \<^verbatim>\<open>Decoder.ipynb\<close>, calls the model on the whole current id sequence with the
  current mask (in \<^verbatim>\<open>translate\<close>: the decoder stack, with the same encoder output and
  encoder mask at every step), takes the logits of the last position, an index no logit
  of which is exceeded (arg-max), appends that one id and makes the mask all ones of the
  new length. After \<open>k\<close> iterations that did not leave the loop the sequence is the start
  sequence followed by \<open>k\<close> ids: its length is \<open>1 + k\<close> from the single start id of
  \<^verbatim>\<open>translate\<close>, and the length of the prompt plus \<open>k\<close> in the cell of \<^verbatim>\<open>Decoder.ipynb\<close>;
  the mask is all ones (in that cell once a step has been taken; before, it is the mask
  of the prompt). \<^verbatim>\<open>translate\<close> and the cell are this loop run for 32 and 20 steps.
\<close>

theorem generation_step_appends_argmax:
  "(state_after (translate_predict decoder enc_output enc_mask) 0 k ([start], [1])
      = Some (ids, ones) \<longrightarrow>
      length ids = 1 + k \<and> ones = replicate (1 + k) 1 \<and> hd ids = start
      \<and> (\<forall>n. generation_loop (translate_predict decoder enc_output enc_mask) 0 (k + n)
                 ([start], [1])
               = generation_loop (translate_predict decoder enc_output enc_mask) 0 n (ids, ones))
      \<and> (k \<le> 32 \<and> start = 65001
           \<and> Encoder_forward encoder [input_ids] (Some [enc_mask]) = Inr enc_output \<longrightarrow>
           translate encoder decoder input_ids enc_mask
             = bind_result
                 (generation_loop (translate_predict decoder enc_output enc_mask) 0 (32 - k)
                    (ids, ones))
                 (\<lambda>s. Inr (tl (fst s))))
      \<and> (\<forall>p. translate_predict decoder enc_output enc_mask ids ones = Inr p \<longrightarrow>
            (\<exists>out. Decoder_forward decoder enc_output [ids] (Some [enc_mask])
                       (Some [replicate (1 + k) 1]) = Inr out
               \<and> length out = 1 \<and> out ! 0 \<noteq> []
               \<and> 0 \<le> p \<and> argmax (last (out ! 0)) = Inr (nat p)
               \<and> nat p < length (last (out ! 0))
               \<and> (\<forall>j<length (last (out ! 0)).
                     \<not> fl_gt (last (out ! 0) ! j) (last (out ! 0) ! nat p)))
            \<and> (\<forall>n. generation_loop (translate_predict decoder enc_output enc_mask) 0 (Suc n)
                       (ids, ones)
                     = (if p = 0 then Inr (ids @ [p], replicate (2 + k) 1)
                        else generation_loop (translate_predict decoder enc_output enc_mask) 0 n
                               (ids @ [p], replicate (2 + k) 1)))))
   \<and> (state_after (generate_predict model) sep_token_id k (prompt, prompt_mask)
        = Some (ids', ones') \<longrightarrow>
        length ids' = length prompt + k \<and> take (length prompt) ids' = prompt
        \<and> (0 < k \<longrightarrow> ones' = replicate (length prompt + k) 1)
        \<and> (k = 0 \<longrightarrow> ones' = prompt_mask)
        \<and> (\<forall>n. generation_loop (generate_predict model) sep_token_id (k + n)
                   (prompt, prompt_mask)
                 = generation_loop (generate_predict model) sep_token_id n (ids', ones'))
        \<and> (k \<le> 20 \<longrightarrow>
             generate model sep_token_id prompt prompt_mask
               = generation_loop (generate_predict model) sep_token_id (20 - k) (ids', ones'))
        \<and> (\<forall>p. generate_predict model ids' ones' = Inr p \<longrightarrow>
              (\<exists>out. model [ids'] (Some [ones']) = Inr out
                 \<and> length out = 1 \<and> out ! 0 \<noteq> []
                 \<and> 0 \<le> p \<and> argmax (last (out ! 0)) = Inr (nat p)
                 \<and> nat p < length (last (out ! 0))
                 \<and> (\<forall>j<length (last (out ! 0)).
                       \<not> fl_gt (last (out ! 0) ! j) (last (out ! 0) ! nat p)))
              \<and> (\<forall>n. generation_loop (generate_predict model) sep_token_id (Suc n)
                         (ids', ones')
                       = (if p = sep_token_id
                          then Inr (ids' @ [p], replicate (length prompt + k + 1) 1)
                          else generation_loop (generate_predict model) sep_token_id n
                                 (ids' @ [p], replicate (length prompt + k + 1) 1)))))"
proof (rule conjI; rule impI)
  assume a: "state_after (translate_predict decoder enc_output enc_mask) 0 k ([start], [1])
      = Some (ids, ones)"
  from state_after_Some [OF a] obtain g where
    l: "length ids = 1 + k"
    and o: "0 < k \<longrightarrow> ones = replicate (length ids) 1"
    and o0: "k = 0 \<longrightarrow> ones = [1]"
    and g: "ids = [start] @ g"
    and L: "\<forall>n. generation_loop (translate_predict decoder enc_output enc_mask) 0 (k + n)
                    ([start], [1])
                  = generation_loop (translate_predict decoder enc_output enc_mask) 0 n (ids, ones)"
    by auto
  have ones: "ones = replicate (1 + k) 1" using o o0 l by (cases k) auto
  have h: "hd ids = start" using g by simp
  have step: "\<forall>p. translate_predict decoder enc_output enc_mask ids ones = Inr p \<longrightarrow>
            (\<exists>out. Decoder_forward decoder enc_output [ids] (Some [enc_mask])
                       (Some [replicate (1 + k) 1]) = Inr out
               \<and> length out = 1 \<and> out ! 0 \<noteq> []
               \<and> 0 \<le> p \<and> argmax (last (out ! 0)) = Inr (nat p)
               \<and> nat p < length (last (out ! 0))
               \<and> (\<forall>j<length (last (out ! 0)).
                     \<not> fl_gt (last (out ! 0) ! j) (last (out ! 0) ! nat p)))
            \<and> (\<forall>n. generation_loop (translate_predict decoder enc_output enc_mask) 0 (Suc n)
                       (ids, ones)
                     = (if p = 0 then Inr (ids @ [p], replicate (2 + k) 1)
                        else generation_loop (translate_predict decoder enc_output enc_mask) 0 n
                               (ids @ [p], replicate (2 + k) 1)))"
  proof (intro allI impI conjI)
    fix p assume p: "translate_predict decoder enc_output enc_mask ids ones = Inr p"
    show "\<exists>out. Decoder_forward decoder enc_output [ids] (Some [enc_mask])
                       (Some [replicate (1 + k) 1]) = Inr out
               \<and> length out = 1 \<and> out ! 0 \<noteq> []
               \<and> 0 \<le> p \<and> argmax (last (out ! 0)) = Inr (nat p)
               \<and> nat p < length (last (out ! 0))
               \<and> (\<forall>j<length (last (out ! 0)).
                     \<not> fl_gt (last (out ! 0) ! j) (last (out ! 0) ! nat p))"
      using translate_predict_Inr [OF p] unfolding ones .
    fix n
    show "generation_loop (translate_predict decoder enc_output enc_mask) 0 (Suc n) (ids, ones)
                     = (if p = 0 then Inr (ids @ [p], replicate (2 + k) 1)
                        else generation_loop (translate_predict decoder enc_output enc_mask) 0 n
                               (ids @ [p], replicate (2 + k) 1))"
      using p l by (simp add: Let_def)
  qed
  have tr: "k \<le> 32 \<and> start = 65001
           \<and> Encoder_forward encoder [input_ids] (Some [enc_mask]) = Inr enc_output \<longrightarrow>
           translate encoder decoder input_ids enc_mask
             = bind_result
                 (generation_loop (translate_predict decoder enc_output enc_mask) 0 (32 - k)
                    (ids, ones))
                 (\<lambda>s. Inr (tl (fst s)))"
  proof
    assume b: "k \<le> 32 \<and> start = 65001
           \<and> Encoder_forward encoder [input_ids] (Some [enc_mask]) = Inr enc_output"
    then have "k + (32 - k) = 32" by simp
    with L have "generation_loop (translate_predict decoder enc_output enc_mask) 0 32 ([start], [1])
        = generation_loop (translate_predict decoder enc_output enc_mask) 0 (32 - k) (ids, ones)"
      by metis
    then show "translate encoder decoder input_ids enc_mask
             = bind_result
                 (generation_loop (translate_predict decoder enc_output enc_mask) 0 (32 - k)
                    (ids, ones))
                 (\<lambda>s. Inr (tl (fst s)))"
      using b by (simp add: translate_def)
  qed
  show "length ids = 1 + k \<and> ones = replicate (1 + k) 1 \<and> hd ids = start
      \<and> (\<forall>n. generation_loop (translate_predict decoder enc_output enc_mask) 0 (k + n)
                 ([start], [1])
               = generation_loop (translate_predict decoder enc_output enc_mask) 0 n (ids, ones))
      \<and> (k \<le> 32 \<and> start = 65001
           \<and> Encoder_forward encoder [input_ids] (Some [enc_mask]) = Inr enc_output \<longrightarrow>
           translate encoder decoder input_ids enc_mask
             = bind_result
                 (generation_loop (translate_predict decoder enc_output enc_mask) 0 (32 - k)
                    (ids, ones))
                 (\<lambda>s. Inr (tl (fst s))))
      \<and> (\<forall>p. translate_predict decoder enc_output enc_mask ids ones = Inr p \<longrightarrow>
            (\<exists>out. Decoder_forward decoder enc_output [ids] (Some [enc_mask])
                       (Some [replicate (1 + k) 1]) = Inr out
               \<and> length out = 1 \<and> out ! 0 \<noteq> []
               \<and> 0 \<le> p \<and> argmax (last (out ! 0)) = Inr (nat p)
               \<and> nat p < length (last (out ! 0))
               \<and> (\<forall>j<length (last (out ! 0)).
                     \<not> fl_gt (last (out ! 0) ! j) (last (out ! 0) ! nat p)))
            \<and> (\<forall>n. generation_loop (translate_predict decoder enc_output enc_mask) 0 (Suc n)
                       (ids, ones)
                     = (if p = 0 then Inr (ids @ [p], replicate (2 + k) 1)
                        else generation_loop (translate_predict decoder enc_output enc_mask) 0 n
                               (ids @ [p], replicate (2 + k) 1))))"
    by (intro conjI; fact l ones h L tr step)
next
  assume a: "state_after (generate_predict model) sep_token_id k (prompt, prompt_mask)
        = Some (ids', ones')"
  from state_after_Some [OF a] obtain g where
    l: "length ids' = length prompt + k"
    and o: "0 < k \<longrightarrow> ones' = replicate (length ids') 1"
    and o0: "k = 0 \<longrightarrow> ones' = prompt_mask"
    and g: "ids' = prompt @ g"
    and L: "\<forall>n. generation_loop (generate_predict model) sep_token_id (k + n)
                   (prompt, prompt_mask)
                 = generation_loop (generate_predict model) sep_token_id n (ids', ones')"
    by auto
  have t: "take (length prompt) ids' = prompt" using g by simp
  have o': "0 < k \<longrightarrow> ones' = replicate (length prompt + k) 1" using o l by simp
  have step: "\<forall>p. generate_predict model ids' ones' = Inr p \<longrightarrow>
              (\<exists>out. model [ids'] (Some [ones']) = Inr out
                 \<and> length out = 1 \<and> out ! 0 \<noteq> []
                 \<and> 0 \<le> p \<and> argmax (last (out ! 0)) = Inr (nat p)
                 \<and> nat p < length (last (out ! 0))
                 \<and> (\<forall>j<length (last (out ! 0)).
                       \<not> fl_gt (last (out ! 0) ! j) (last (out ! 0) ! nat p)))
              \<and> (\<forall>n. generation_loop (generate_predict model) sep_token_id (Suc n)
                         (ids', ones')
                       = (if p = sep_token_id
                          then Inr (ids' @ [p], replicate (length prompt + k + 1) 1)
                          else generation_loop (generate_predict model) sep_token_id n
                                 (ids' @ [p], replicate (length prompt + k + 1) 1)))"
  proof (intro allI impI conjI)
    fix p assume p: "generate_predict model ids' ones' = Inr p"
    show "\<exists>out. model [ids'] (Some [ones']) = Inr out
                 \<and> length out = 1 \<and> out ! 0 \<noteq> []
                 \<and> 0 \<le> p \<and> argmax (last (out ! 0)) = Inr (nat p)
                 \<and> nat p < length (last (out ! 0))
                 \<and> (\<forall>j<length (last (out ! 0)).
                       \<not> fl_gt (last (out ! 0) ! j) (last (out ! 0) ! nat p))"
      by (rule generate_predict_Inr [OF p])
    fix n
    show "generation_loop (generate_predict model) sep_token_id (Suc n) (ids', ones')
                       = (if p = sep_token_id
                          then Inr (ids' @ [p], replicate (length prompt + k + 1) 1)
                          else generation_loop (generate_predict model) sep_token_id n
                                 (ids' @ [p], replicate (length prompt + k + 1) 1))"
      using p l by (simp add: Let_def)
  qed
  have gen: "k \<le> 20 \<longrightarrow>
             generate model sep_token_id prompt prompt_mask
               = generation_loop (generate_predict model) sep_token_id (20 - k) (ids', ones')"
  proof
    assume "k \<le> 20"
    then have "k + (20 - k) = 20" by simp
    with L have "generation_loop (generate_predict model) sep_token_id 20 (prompt, prompt_mask)
        = generation_loop (generate_predict model) sep_token_id (20 - k) (ids', ones')"
      by metis
    then show "generate model sep_token_id prompt prompt_mask
               = generation_loop (generate_predict model) sep_token_id (20 - k) (ids', ones')"
      by (simp add: generate_def)
  qed
  show "length ids' = length prompt + k \<and> take (length prompt) ids' = prompt
        \<and> (0 < k \<longrightarrow> ones' = replicate (length prompt + k) 1)
        \<and> (k = 0 \<longrightarrow> ones' = prompt_mask)
        \<and> (\<forall>n. generation_loop (generate_predict model) sep_token_id (k + n)
                   (prompt, prompt_mask)
                 = generation_loop (generate_predict model) sep_token_id n (ids', ones'))
        \<and> (k \<le> 20 \<longrightarrow>
             generate model sep_token_id prompt prompt_mask
               = generation_loop (generate_predict model) sep_token_id (20 - k) (ids', ones'))
        \<and> (\<forall>p. generate_predict model ids' ones' = Inr p \<longrightarrow>
              (\<exists>out. model [ids'] (Some [ones']) = Inr out
                 \<and> length out = 1 \<and> out ! 0 \<noteq> []
                 \<and> 0 \<le> p \<and> argmax (last (out ! 0)) = Inr (nat p)
                 \<and> nat p < length (last (out ! 0))
                 \<and> (\<forall>j<length (last (out ! 0)).
                       \<not> fl_gt (last (out ! 0) ! j) (last (out ! 0) ! nat p)))
              \<and> (\<forall>n. generation_loop (generate_predict model) sep_token_id (Suc n)
                         (ids', ones')
                       = (if p = sep_token_id
                          then Inr (ids' @ [p], replicate (length prompt + k + 1) 1)
                          else generation_loop (generate_predict model) sep_token_id n
                                 (ids' @ [p], replicate (length prompt + k + 1) 1))))"
    by (intro conjI; fact l t o' o0 L gen step)
qed

theorem generation_step_appends_argmax_witness:
  "state_after
     (translate_predict
        \<lparr>dec_embedding = \<lparr>num_embeddings = 2, emb_weight = [[3], [4]]\<rparr>,
         dec_pos_encoding = \<lparr>pe = [[0]]\<rparr>,
         dec_transformer_blocks =
           [DecoderBlock_init 1 1 1 1
              (Inr, Inr, Inr, (([[0]], [0]), ([[0]], [0]), ([[1]], [0]), ([[1]], [0])),
               (([[0]], [0]), ([[0]], [0]), ([[1]], [0]), ([[1]], [0])), Inr)],
         dec_ln = Inr, dec_fc = Linear_init 1 2 ([[0], [1]], [0, 0])\<rparr>
        [[[Fin 16]]] [1])
     0 (Suc 0) ([1], [1]) = Some ([1, 1], [1, 1])
   \<and> length [1, 1 :: int] = 1 + Suc 0
   \<and> [1, 1 :: int] = replicate (1 + Suc 0) 1
   \<and> hd [1, 1 :: int] = 1
   \<and> state_after (generate_predict (\<lambda>ids m. Inr [[[Fin 0, Fin 0, Fin 1]]])) 0 (Suc 0)
         ([5, 6], [1, 1])
       = Some ([5, 6, 2], [1, 1, 1])
   \<and> length [5, 6, 2 :: int] = length [5, 6 :: int] + Suc 0
   \<and> generate (\<lambda>ids m. Inr [[[Fin 0, Fin 0, Fin 1]]]) 0 [5, 6] [1, 1]
       = generation_loop (generate_predict (\<lambda>ids m. Inr [[[Fin 0, Fin 0, Fin 1]]])) 0
           (20 - Suc 0) ([5, 6, 2], [1, 1, 1])"
proof -
  define decoder where "decoder =
        \<lparr>dec_embedding = \<lparr>num_embeddings = 2, emb_weight = [[3], [4]]\<rparr>,
         dec_pos_encoding = \<lparr>pe = [[0]]\<rparr>,
         dec_transformer_blocks =
           [DecoderBlock_init 1 1 1 1
              (Inr, Inr, Inr, (([[0]], [0]), ([[0]], [0]), ([[1]], [0]), ([[1]], [0])),
               (([[0]], [0]), ([[0]], [0]), ([[1]], [0]), ([[1]], [0])), Inr)],
         dec_ln = Inr, dec_fc = Linear_init 1 2 ([[0], [1]], [0, 0])\<rparr>"
  have s: "state_after (translate_predict decoder [[[Fin 16]]] [1]) 0 (Suc 0) ([1], [1])
             = Some ([1, 1], [1, 1])"
    unfolding decoder_def
    by (simp only: state_after.simps fst_conv snd_conv one_layer_decoder_step) simp
  have g: "state_after (generate_predict (\<lambda>ids m. Inr [[[Fin 0, Fin 0, Fin 1]]])) 0 (Suc 0)
       ([5, 6], [1, 1]) = Some ([5, 6, 2], [1, 1, 1])"
    by (simp add: generate_predict_def last_position_def argmax_def view_1_1_def)
  note T = generation_step_appends_argmax
    [of decoder "[[[Fin 16]]]" "[1]" "Suc 0" 1 "[1, 1]" "[1, 1]" _ _
       "\<lambda>ids m. Inr [[[Fin 0, Fin 0, Fin 1]]]" 0 "[5, 6]" "[1, 1]" "[5, 6, 2]" "[1, 1, 1]"]
  note A = T [THEN conjunct1, THEN mp, OF s]
  note B = T [THEN conjunct2, THEN mp, OF g]
  note a1 = A [THEN conjunct1]
  note a2 = A [THEN conjunct2, THEN conjunct1]
  note a3 = A [THEN conjunct2, THEN conjunct2, THEN conjunct1]
  note b1 = B [THEN conjunct1]
  have "Suc 0 \<le> 20" by simp
  note c = B [THEN conjunct2, THEN conjunct2, THEN conjunct2, THEN conjunct2, THEN conjunct2,
      THEN conjunct1, THEN mp, OF this]
  show ?thesis
    unfolding decoder_def [symmetric]
    by (intro conjI) (rule s a1 a2 a3 g b1 c)+
qed

text \<open>
  Counterexample to C4 as stated. The cell of \<^verbatim>\<open>Decoder.ipynb\<close> starts from a prompt,
  here of two ids: after one step that does not leave the loop the sequence has three
  ids, not \<open>1 + 1\<close>, and after the 20 steps it has 22.
\<close>

theorem generation_prompt_length_counterexample:
  "state_after (generate_predict (\<lambda>ids m. Inr [[[Fin 0, Fin 0, Fin 1]]])) 0 1 ([5, 6], [1, 1])
     = Some ([5, 6, 2], [1, 1, 1])
   \<and> length [5, 6, 2 :: int] \<noteq> 1 + 1
   \<and> generate (\<lambda>ids m. Inr [[[Fin 0, Fin 0, Fin 1]]]) 0 [5, 6] [1, 1]
     = Inr ([5, 6] @ replicate 20 2, replicate 22 1)"
  by (simp add: generate_def generate_predict_def last_position_def argmax_def view_1_1_def
      eval_nat_numeral Let_def)

end
